theory Spec2Isabelle
  imports Complex_Main "HOL-Library.Multiset"
begin

section \<open>CompoAI: canvas composition and transform engine\<close>

text \<open>
  A shallow embedding of the layer store, the gesture handlers, the export pipeline
  (\<^verbatim>\<open>App\<close> in \<^verbatim>\<open>src/components/UIComponents.tsx\<close>) and the mask compositor
  (\<^verbatim>\<open>applyMaskToImage\<close> in \<^verbatim>\<open>src/unnamed/part_000\<close>).

  JavaScript numbers are IEEE doubles. Geometry (positions, angles, scales) is modelled in
  the reals, with \<^verbatim>\<open>Math.cos\<close>, \<^verbatim>\<open>Math.sin\<close>, \<^verbatim>\<open>Math.hypot\<close> as their
  mathematical counterparts, and a division whose divisor may be zero returns an option;
  \<open>zIndex\<close> values are integers; the levels curve of the mask compositor, whose result is
  floored, is modelled with the rounding of double arithmetic written out.
\<close>

subsection \<open>Data model (types.ts)\<close>

datatype blendMode =
  NORMAL | MULTIPLY | SCREEN | OVERLAY | DARKEN | LIGHTEN | COLOR_DODGE | COLOR_BURN
  | HARD_LIGHT | SOFT_LIGHT | DIFFERENCE | EXCLUSION | HUE | SATURATION | COLOR | LUMINOSITY

record colorCorrection =
  brightness :: real
  contrast :: real
  saturation :: real
  hue :: real
  blur :: real

datatype layerType = ImageLayer | TextLayer

text \<open>
  The fields of \<^verbatim>\<open>Layer\<close>. \<^verbatim>\<open>id\<close>, \<^verbatim>\<open>type\<close>, \<^verbatim>\<open>x\<close> and \<^verbatim>\<open>y\<close> are written
  \<open>lid\<close>, \<open>ltype\<close>, \<open>lx\<close> and \<open>ly\<close>; the optional fields \<^verbatim>\<open>originalSrc\<close> and
  \<^verbatim>\<open>isMasked\<close> are options.
\<close>

record layer =
  lid :: string
  name :: string
  ltype :: layerType
  src :: string
  originalSrc :: "string option"
  lx :: real
  ly :: real
  width :: real
  height :: real
  rotation :: real
  scale :: real
  opacity :: real
  blendMode :: blendMode
  isVisible :: bool
  isLocked :: bool
  isMasked :: "bool option"
  zIndex :: int
  colorCorrection :: colorCorrection

text \<open>The viewport state \<^verbatim>\<open>{ x, y, scale }\<close>, fields written \<open>vx\<close>, \<open>vy\<close>, \<open>vscale\<close>.\<close>

record viewport =
  vx :: real
  vy :: real
  vscale :: real

definition MAX_ZOOM :: real where
  "MAX_ZOOM = 5"

definition MIN_ZOOM :: real where
  "MIN_ZOOM = 0.1"

definition DEFAULT_COLOR_CORRECTION :: colorCorrection where
  "DEFAULT_COLOR_CORRECTION =
     \<lparr>brightness = 100, contrast = 100, saturation = 100, hue = 0, blur = 0\<rparr>"

definition INITIAL_LAYER_WIDTH :: real where
  "INITIAL_LAYER_WIDTH = 300"

definition initialViewport :: viewport where
  "initialViewport = \<lparr>vx = 0, vy = 0, vscale = 1\<rparr>"

subsection \<open>Wheel zoom (handleWheel)\<close>

record wheelEvent =
  ctrlKey :: bool
  metaKey :: bool
  deltaY :: real

definition handleWheel :: "viewport \<Rightarrow> wheelEvent \<Rightarrow> viewport" where
  "handleWheel prev e =
     (if ctrlKey e \<or> metaKey e then
        (let scaleAmount = - deltaY e * 0.001
         in prev\<lparr>vscale := min (max (vscale prev + scaleAmount) MIN_ZOOM) MAX_ZOOM\<rparr>)
      else prev)"

subsection \<open>Double arithmetic\<close>

text \<open>
  An arithmetic operation on doubles returns the exact result rounded to the nearest
  double: 53 significant bits, ties to the even significand. \<open>expo k q\<close> is the binary
  exponent of a positive \<open>q\<close> (the \<open>e\<close> with \<open>2 ^ e \<le> q < 2 ^ (e + 1)\<close>), found in at most
  \<open>k\<close> steps. The ends of the exponent range (overflow to \<^verbatim>\<open>Infinity\<close>, subnormal
  numbers) are not modelled.
\<close>

fun expo :: "nat \<Rightarrow> real \<Rightarrow> int" where
  "expo 0 q = 0"
| "expo (Suc k) q =
     (if q < 1 then expo k (q * 2) - 1
      else if 2 \<le> q then expo k (q / 2) + 1
      else 0)"

definition pow2 :: "int \<Rightarrow> real" where
  "pow2 e = (if 0 \<le> e then 2 ^ nat e else 1 / 2 ^ nat (- e))"

definition roundEven :: "real \<Rightarrow> int" where
  "roundEven q =
     (let n = \<lfloor>q\<rfloor>; r = q - of_int n
      in if r < 1 / 2 then n
         else if 1 / 2 < r then n + 1
         else if even n then n else n + 1)"

definition roundDouble :: "real \<Rightarrow> real" where
  "roundDouble q =
     (if q = 0 then 0
      else (let e = expo 1100 \<bar>q\<bar>; u = pow2 (e - 52)
            in sgn q * of_int (roundEven (\<bar>q\<bar> / u)) * u))"

subsection \<open>Export (handleExport)\<close>

text \<open>
  The corner loop of \<^verbatim>\<open>handleExport\<close> is given twice: first in exact arithmetic, the
  geometry that the loop computes, then with the rounding of every double operation,
  on which the size of the canvas depends.
\<close>

text \<open>
  The running bounding box. \<^verbatim>\<open>minX\<close> and \<^verbatim>\<open>minY\<close> start at \<^verbatim>\<open>Infinity\<close>,
  \<^verbatim>\<open>maxX\<close> and \<^verbatim>\<open>maxY\<close> at \<^verbatim>\<open>-Infinity\<close>: \<open>None\<close> stands for that initial value.
\<close>

record bounds =
  minX :: "real option"
  minY :: "real option"
  maxX :: "real option"
  maxY :: "real option"

definition initBounds :: bounds where
  "initBounds = \<lparr>minX = None, minY = None, maxX = None, maxY = None\<rparr>"

text \<open>\<^verbatim>\<open>t < m\<close> for a running minimum and \<^verbatim>\<open>t > m\<close> for a running maximum.\<close>

definition belowMin :: "real \<Rightarrow> real option \<Rightarrow> bool" where
  "belowMin t m = (case m of None \<Rightarrow> True | Some v \<Rightarrow> t < v)"

definition aboveMax :: "real \<Rightarrow> real option \<Rightarrow> bool" where
  "aboveMax t m = (case m of None \<Rightarrow> True | Some v \<Rightarrow> t > v)"

definition corners :: "layer \<Rightarrow> (real \<times> real) list" where
  "corners layer =
     [(- width layer / 2, - height layer / 2),
      (width layer / 2, - height layer / 2),
      (width layer / 2, height layer / 2),
      (- width layer / 2, height layer / 2)]"

text \<open>The body of the inner \<^verbatim>\<open>corners.forEach\<close>: scale and rotate one corner, then update the box.\<close>

definition addCorner :: "layer \<Rightarrow> bounds \<Rightarrow> real \<times> real \<Rightarrow> bounds" where
  "addCorner layer b p =
     (let cx = lx layer + width layer / 2;
          cy = ly layer + height layer / 2;
          rad = rotation layer * (pi / 180);
          c = cos rad;
          s = sin rad;
          tx = cx + (fst p * scale layer * c - snd p * scale layer * s);
          ty = cy + (fst p * scale layer * s + snd p * scale layer * c);
          b1 = (if belowMin tx (minX b) then b\<lparr>minX := Some tx\<rparr> else b);
          b2 = (if aboveMax tx (maxX b1) then b1\<lparr>maxX := Some tx\<rparr> else b1);
          b3 = (if belowMin ty (minY b2) then b2\<lparr>minY := Some ty\<rparr> else b2)
      in (if aboveMax ty (maxY b3) then b3\<lparr>maxY := Some ty\<rparr> else b3))"

definition addLayerBounds :: "bounds \<Rightarrow> layer \<Rightarrow> bounds" where
  "addLayerBounds b layer = foldl (addCorner layer) b (corners layer)"

definition exportBounds :: "layer list \<Rightarrow> bounds" where
  "exportBounds visibleLayers = foldl addLayerBounds initBounds visibleLayers"

text \<open>
  The same loop in double arithmetic. \<open>fl\<close> rounds the result of one operation;
  \<open>mcos\<close> and \<open>msin\<close> are \<^verbatim>\<open>Math.cos\<close> and \<^verbatim>\<open>Math.sin\<close>, whose results are
  approximations left to the implementation (only \<open>cos 0 = 1\<close> and \<open>sin 0 = 0\<close> are
  fixed); \<^verbatim>\<open>Math.PI\<close> is \<open>fl pi\<close>. A negation, a comparison and a product with
  \<open>1\<close> involve no rounding of their own, but every operation of the source is written.
\<close>

definition cornersF :: "(real \<Rightarrow> real) \<Rightarrow> layer \<Rightarrow> (real \<times> real) list" where
  "cornersF fl layer =
     [(fl (- width layer / 2), fl (- height layer / 2)),
      (fl (width layer / 2), fl (- height layer / 2)),
      (fl (width layer / 2), fl (height layer / 2)),
      (fl (- width layer / 2), fl (height layer / 2))]"

definition transformCornerF ::
  "(real \<Rightarrow> real) \<Rightarrow> (real \<Rightarrow> real) \<Rightarrow> (real \<Rightarrow> real) \<Rightarrow> layer \<Rightarrow> real \<times> real \<Rightarrow> real \<times> real" where
  "transformCornerF fl mcos msin layer p =
     (let cx = fl (lx layer + fl (width layer / 2));
          cy = fl (ly layer + fl (height layer / 2));
          rad = fl (rotation layer * fl (fl pi / 180));
          c = mcos rad;
          s = msin rad;
          tx = fl (cx + fl (fl (fl (fst p * scale layer) * c) - fl (fl (snd p * scale layer) * s)));
          ty = fl (cy + fl (fl (fl (fst p * scale layer) * s) + fl (fl (snd p * scale layer) * c)))
      in (tx, ty))"

definition addCornerF ::
  "(real \<Rightarrow> real) \<Rightarrow> (real \<Rightarrow> real) \<Rightarrow> (real \<Rightarrow> real) \<Rightarrow> layer \<Rightarrow> bounds \<Rightarrow> real \<times> real \<Rightarrow> bounds" where
  "addCornerF fl mcos msin layer b p =
     (let t = transformCornerF fl mcos msin layer p;
          tx = fst t;
          ty = snd t;
          b1 = (if belowMin tx (minX b) then b\<lparr>minX := Some tx\<rparr> else b);
          b2 = (if aboveMax tx (maxX b1) then b1\<lparr>maxX := Some tx\<rparr> else b1);
          b3 = (if belowMin ty (minY b2) then b2\<lparr>minY := Some ty\<rparr> else b2)
      in (if aboveMax ty (maxY b3) then b3\<lparr>maxY := Some ty\<rparr> else b3))"

definition addLayerBoundsF ::
  "(real \<Rightarrow> real) \<Rightarrow> (real \<Rightarrow> real) \<Rightarrow> (real \<Rightarrow> real) \<Rightarrow> bounds \<Rightarrow> layer \<Rightarrow> bounds" where
  "addLayerBoundsF fl mcos msin b layer = foldl (addCornerF fl mcos msin layer) b (cornersF fl layer)"

definition exportBoundsF ::
  "(real \<Rightarrow> real) \<Rightarrow> (real \<Rightarrow> real) \<Rightarrow> (real \<Rightarrow> real) \<Rightarrow> layer list \<Rightarrow> bounds" where
  "exportBoundsF fl mcos msin visibleLayers =
     foldl (addLayerBoundsF fl mcos msin) initBounds visibleLayers"

text \<open>
  \<^verbatim>\<open>Math.abs(max - min)\<close>; with an end still at its initial infinite value the
  difference is \<^verbatim>\<open>-Infinity\<close> and its absolute value \<^verbatim>\<open>Infinity\<close>, written \<open>None\<close>.
\<close>

definition absDiff :: "(real \<Rightarrow> real) \<Rightarrow> real option \<Rightarrow> real option \<Rightarrow> real option" where
  "absDiff fl hi lo = (case (hi, lo) of (Some a, Some b) \<Rightarrow> Some \<bar>fl (a - b)\<bar> | _ \<Rightarrow> None)"

text \<open>
  The assignment of a number to \<^verbatim>\<open>canvas.width\<close> or \<^verbatim>\<open>canvas.height\<close>, which are
  unsigned long: an infinity becomes 0, a finite number is truncated towards zero and
  taken modulo \<open>2 ^ 32\<close>.
\<close>

definition toUnsignedLong :: "real option \<Rightarrow> nat" where
  "toUnsignedLong v =
     (case v of
        None \<Rightarrow> 0
      | Some r \<Rightarrow> nat ((if r < 0 then - \<lfloor>- r\<rfloor> else \<lfloor>r\<rfloor>) mod 4294967296))"

datatype filterFn = Brightness real | Contrast real | Saturate real | HueRotate real | Blur real

text \<open>The filter string, as the list of the filter functions it names, in order.\<close>

definition getFilterString :: "colorCorrection \<Rightarrow> filterFn list" where
  "getFilterString cc =
     [Brightness (brightness cc), Contrast (contrast cc), Saturate (saturation cc),
      HueRotate (hue cc), Blur (blur cc)]"

datatype compositeOp = SourceOver | BlendOp blendMode

text \<open>What the \<^verbatim>\<open>onload\<close> callback of one layer does to the drawing context.\<close>

record drawCall =
  dImg :: string
  dTranslate :: "real \<times> real"
  dRotate :: real
  dScale :: "real \<times> real"
  dGlobalAlpha :: real
  dCompositeOp :: compositeOp
  dFilter :: "filterFn list"
  dDest :: "real \<times> real \<times> real \<times> real"

definition drawLayer :: "(real \<Rightarrow> real) \<Rightarrow> layer \<Rightarrow> drawCall" where
  "drawLayer fl layer =
     (let cx = fl (lx layer + fl (width layer / 2));
          cy = fl (ly layer + fl (height layer / 2))
      in \<lparr>dImg = src layer,
          dTranslate = (cx, cy),
          dRotate = fl (fl (rotation layer * fl pi) / 180),
          dScale = (scale layer, scale layer),
          dGlobalAlpha = opacity layer,
          dCompositeOp = (if blendMode layer = NORMAL then SourceOver else BlendOp (blendMode layer)),
          dFilter = getFilterString (colorCorrection layer),
          dDest = (fl (- width layer / 2), fl (- height layer / 2), width layer, height layer)\<rparr>)"

text \<open>
  The canvas the export draws on and downloads: its size in pixels, the initial
  translation \<^verbatim>\<open>ctx.translate(-minX, -minY)\<close> (given as \<open>minX\<close>, \<open>minY\<close>), and the draw
  calls in order.
\<close>

record exportPlan =
  canvasWidth :: nat
  canvasHeight :: nat
  originAt :: "real option \<times> real option"
  draws :: "drawCall list"

datatype exportError = NoVisibleLayers | NoCanvasContext

text \<open>
  The \<^verbatim>\<open>try\<close> block. \<open>ctxOk\<close> says whether \<^verbatim>\<open>canvas.getContext('2d')\<close> returns a
  context, \<open>loads\<close> whether the image of a source loads (\<^verbatim>\<open>onerror\<close> skips the layer).
\<close>

definition exportBody ::
  "(real \<Rightarrow> real) \<Rightarrow> (real \<Rightarrow> real) \<Rightarrow> bool \<Rightarrow> (string \<Rightarrow> bool) \<Rightarrow> layer list \<Rightarrow> exportError + exportPlan" where
  "exportBody mcos msin ctxOk loads layers =
     (let visibleLayers = filter isVisible layers
      in if length visibleLayers = 0 then Inl NoVisibleLayers
         else
           (let b = exportBoundsF roundDouble mcos msin visibleLayers;
                w = absDiff roundDouble (maxX b) (minX b);
                h = absDiff roundDouble (maxY b) (minY b)
            in if \<not> ctxOk then Inl NoCanvasContext
               else
                 (let sortedLayers = sort_key zIndex visibleLayers
                  in Inr \<lparr>canvasWidth = toUnsignedLong w, canvasHeight = toUnsignedLong h,
                          originAt = (minX b, minY b),
                          draws = map (drawLayer roundDouble)
                                    (filter (\<lambda>layer. loads (src layer)) sortedLayers)\<rparr>)))"

text \<open>
  The outcome of \<^verbatim>\<open>handleExport\<close>: the early \<^verbatim>\<open>return\<close>, the \<^verbatim>\<open>catch\<close> (the error is
  logged and the alert "Could not export image." shown), or the download of the canvas.
\<close>

datatype exportOutcome = NoExport | ExportAlert exportError | Download exportPlan

definition handleExport ::
  "(real \<Rightarrow> real) \<Rightarrow> (real \<Rightarrow> real) \<Rightarrow> bool \<Rightarrow> (string \<Rightarrow> bool) \<Rightarrow> layer list \<Rightarrow> exportOutcome" where
  "handleExport mcos msin ctxOk loads layers =
     (if length layers = 0 then NoExport
      else (case exportBody mcos msin ctxOk loads layers of
              Inl err \<Rightarrow> ExportAlert err
            | Inr plan \<Rightarrow> Download plan))"

text \<open>A cosine and a sine that round the exact value, for concrete runs.\<close>

definition roundedCos :: "real \<Rightarrow> real" where
  "roundedCos r = roundDouble (cos r)"

definition roundedSin :: "real \<Rightarrow> real" where
  "roundedSin r = roundDouble (sin r)"

text \<open>An environment in which every image loads.\<close>

definition allLoad :: "string \<Rightarrow> bool" where
  "allLoad s = True"

text \<open>A layer as \<^verbatim>\<open>addLayer\<close> makes it, at a given place, for concrete stores.\<close>

definition sampleLayer :: "string \<Rightarrow> int \<Rightarrow> layer" where
  "sampleLayer i z =
     \<lparr>lid = i, name = ''Image Layer'', ltype = ImageLayer, src = ''data:a'',
      originalSrc = Some ''data:a'', lx = 0, ly = 0, width = 300, height = 300,
      rotation = 0, scale = 1, opacity = 1, blendMode = NORMAL, isVisible = True,
      isLocked = False, isMasked = Some False, zIndex = z,
      colorCorrection = DEFAULT_COLOR_CORRECTION\<rparr>"

subsection \<open>Layer store (updateLayer, addLayer, moveLayer)\<close>

text \<open>
  JavaScript truthiness of an optional string (\<^verbatim>\<open>null\<close>, \<^verbatim>\<open>undefined\<close> and the empty
  string are falsy), and \<^verbatim>\<open>a || d\<close> on optional strings and numbers.
\<close>

definition truthyStr :: "string option \<Rightarrow> bool" where
  "truthyStr v = (case v of None \<Rightarrow> False | Some t \<Rightarrow> t \<noteq> [])"

definition orStr :: "string option \<Rightarrow> string \<Rightarrow> string" where
  "orStr v d = (case v of None \<Rightarrow> d | Some t \<Rightarrow> if t \<noteq> [] then t else d)"

definition orNum :: "real option \<Rightarrow> real \<Rightarrow> real" where
  "orNum v d = (case v of None \<Rightarrow> d | Some t \<Rightarrow> if t \<noteq> 0 then t else d)"

text \<open>
  \<^verbatim>\<open>prev.map(l => l.id === id ? { ...l, ...updates } : l)\<close>; the partial object
  \<^verbatim>\<open>updates\<close> is the function that overwrites its fields.
\<close>

definition updateLayer :: "string \<Rightarrow> (layer \<Rightarrow> layer) \<Rightarrow> layer list \<Rightarrow> layer list" where
  "updateLayer i updates prev = map (\<lambda>l. if lid l = i then updates l else l) prev"

text \<open>The state of the component: React state and the interaction refs.\<close>

datatype transformType = Rotate | Scale

record transformInfo =
  ttype :: transformType
  startVal :: real
  startCursorAngle :: "real option"
  startCursorDist :: "real option"
  centerX :: real
  centerY :: real

record appState =
  layers :: "layer list"
  selectedLayerId :: "string option"
  viewport :: viewport
  dragStartRef :: "(real \<times> real) option"
  initialLayerStateRef :: "(real \<times> real) option"
  isDraggingLayerRef :: bool
  transformRef :: "transformInfo option"

definition getSelectedLayer :: "appState \<Rightarrow> layer option" where
  "getSelectedLayer st = find (\<lambda>l. Some (lid l) = selectedLayerId st) (layers st)"

text \<open>
  \<^verbatim>\<open>addLayer(src, name)\<close>, its synchronous part; \<open>now\<close> is \<^verbatim>\<open>Date.now().toString()\<close>,
  \<open>innerWidth\<close> and \<open>innerHeight\<close> the window size. (The later \<^verbatim>\<open>onload\<close> callback only
  sets \<open>width\<close> and \<open>height\<close>.) The source reads \<^verbatim>\<open>layers.length\<close> and \<^verbatim>\<open>viewport\<close> from
  the render that made the handler and appends to the list of the moment of the update;
  \<open>st\<close> stands for both, so the model is of an addition made from an up-to-date render,
  and not of two additions queued from one render.
\<close>

definition addLayer :: "string \<Rightarrow> real \<Rightarrow> real \<Rightarrow> string \<Rightarrow> string \<Rightarrow> appState \<Rightarrow> appState" where
  "addLayer now innerWidth innerHeight source nm st =
     (let newLayer =
        \<lparr>lid = now, name = nm, ltype = ImageLayer, src = source, originalSrc = Some source,
         lx = (innerWidth / 2) - (INITIAL_LAYER_WIDTH / 2) - vx (viewport st),
         ly = (innerHeight / 2) - (INITIAL_LAYER_WIDTH / 2) - vy (viewport st),
         width = INITIAL_LAYER_WIDTH, height = INITIAL_LAYER_WIDTH,
         rotation = 0, scale = 1, opacity = 1, blendMode = NORMAL,
         isVisible = True, isLocked = False, isMasked = Some False,
         zIndex = int (length (layers st)) + 1,
         colorCorrection = DEFAULT_COLOR_CORRECTION\<rparr>
      in st\<lparr>layers := layers st @ [newLayer], selectedLayerId := Some now\<rparr>)"

text \<open>\<^verbatim>\<open>findIndex\<close>; \<open>None\<close> is the result \<^verbatim>\<open>-1\<close>.\<close>

fun findIndex :: "('a \<Rightarrow> bool) \<Rightarrow> 'a list \<Rightarrow> nat option" where
  "findIndex P [] = None"
| "findIndex P (a # as) = (if P a then Some 0 else map_option Suc (findIndex P as))"

datatype direction = Up | Down

text \<open>
  The updater of \<^verbatim>\<open>moveLayer\<close>. \<^verbatim>\<open>sort\<close> with the comparator \<^verbatim>\<open>a.zIndex - b.zIndex\<close> is
  a stable sort on \<open>zIndex\<close>, as \<open>sort_key\<close> is.
\<close>

definition moveLayer :: "string \<Rightarrow> direction \<Rightarrow> layer list \<Rightarrow> layer list" where
  "moveLayer i dir prev =
     (let sorted = sort_key zIndex prev
      in case findIndex (\<lambda>l. lid l = i) sorted of
           None \<Rightarrow> prev
         | Some index \<Rightarrow>
             if dir = Up \<and> index = length sorted - 1 then prev
             else if dir = Down \<and> index = 0 then prev
             else
               (let targetIndex = (if dir = Up then index + 1 else index - 1);
                    tempZ = zIndex (sorted ! index);
                    sorted1 = sorted[index := (sorted ! index)\<lparr>zIndex := zIndex (sorted ! targetIndex)\<rparr>];
                    sorted2 = sorted1[targetIndex := (sorted1 ! targetIndex)\<lparr>zIndex := tempZ\<rparr>]
                in sort_key zIndex sorted2))"

subsection \<open>Background removal toggle (handleRemoveBackground)\<close>

text \<open>
  \<open>rb\<close> is the outcome of the service call \<^verbatim>\<open>removeBackground(layer.src)\<close>: the masked
  image, or \<open>None\<close> when the call rejects (the \<^verbatim>\<open>catch\<close> shows an alert and the store is
  left as it was).
\<close>

definition handleRemoveBackground :: "(string \<Rightarrow> string option) \<Rightarrow> appState \<Rightarrow> appState" where
  "handleRemoveBackground rb st =
     (if \<not> truthyStr (selectedLayerId st) then st
      else case getSelectedLayer st of
             None \<Rightarrow> st
           | Some layer \<Rightarrow>
               if isMasked layer = Some True \<and> truthyStr (originalSrc layer) then
                 st\<lparr>layers := updateLayer (lid layer)
                     (\<lambda>l. l\<lparr>src := the (originalSrc layer), isMasked := Some False\<rparr>) (layers st)\<rparr>
               else
                 (case rb (src layer) of
                    None \<Rightarrow> st
                  | Some maskedImageBase64 \<Rightarrow>
                      st\<lparr>layers := updateLayer (lid layer)
                          (\<lambda>l. l\<lparr>src := maskedImageBase64, isMasked := Some True,
                                 originalSrc := Some (orStr (originalSrc layer) (src layer))\<rparr>)
                          (layers st)\<rparr>))"

subsection \<open>Pointer gestures\<close>

record pointerEvent =
  clientX :: real
  clientY :: real

text \<open>\<^verbatim>\<open>Math.hypot\<close> and \<^verbatim>\<open>Math.atan2(y, x)\<close> (with the value 0 at the origin).\<close>

definition hypot :: "real \<Rightarrow> real \<Rightarrow> real" where
  "hypot a b = sqrt (a\<^sup>2 + b\<^sup>2)"

definition atan2 :: "real \<Rightarrow> real \<Rightarrow> real" where
  "atan2 b a =
     (if a > 0 then arctan (b / a)
      else if a < 0 \<and> b \<ge> 0 then arctan (b / a) + pi
      else if a < 0 then arctan (b / a) - pi
      else if b > 0 then pi / 2
      else if b < 0 then - pi / 2
      else 0)"

text \<open>
  A division of doubles: with a zero divisor the quotient is an infinity or \<^verbatim>\<open>NaN\<close>,
  which is \<open>None\<close> here.
\<close>

definition jsDiv :: "real \<Rightarrow> real \<Rightarrow> real option" where
  "jsDiv a b = (if b = 0 then None else Some (a / b))"

definition handlePointerDown :: "appState \<Rightarrow> pointerEvent \<Rightarrow> string option \<Rightarrow> appState" where
  "handlePointerDown st e layerId =
     (if truthyStr layerId then
        (case find (\<lambda>l. Some (lid l) = layerId) (layers st) of
           None \<Rightarrow> st
         | Some layer \<Rightarrow>
             if \<not> isLocked layer then
               st\<lparr>selectedLayerId := layerId,
                  isDraggingLayerRef := True,
                  dragStartRef := Some (clientX e, clientY e),
                  initialLayerStateRef := Some (lx layer, ly layer)\<rparr>
             else st)
      else
        st\<lparr>isDraggingLayerRef := False,
           dragStartRef := Some (clientX e, clientY e),
           initialLayerStateRef := Some (vx (viewport st), vy (viewport st))\<rparr>)"

definition handleTransformStart :: "appState \<Rightarrow> pointerEvent \<Rightarrow> transformType \<Rightarrow> appState" where
  "handleTransformStart st e type =
     (case getSelectedLayer st of
        None \<Rightarrow> st
      | Some layer \<Rightarrow>
          (let layerCenterX = lx layer + width layer / 2;
               layerCenterY = ly layer + height layer / 2;
               screenCenterX = layerCenterX * vscale (viewport st) + vx (viewport st);
               screenCenterY = layerCenterY * vscale (viewport st) + vy (viewport st)
           in if type = Rotate then
                (let angle = atan2 (clientY e - screenCenterY) (clientX e - screenCenterX)
                 in st\<lparr>transformRef := Some
                      \<lparr>ttype = Rotate, startVal = rotation layer, startCursorAngle = Some angle,
                       startCursorDist = None, centerX = screenCenterX, centerY = screenCenterY\<rparr>\<rparr>)
              else
                (let dist = hypot (clientX e - screenCenterX) (clientY e - screenCenterY)
                 in st\<lparr>transformRef := Some
                      \<lparr>ttype = Scale, startVal = scale layer, startCursorAngle = None,
                       startCursorDist = Some dist, centerX = screenCenterX, centerY = screenCenterY\<rparr>\<rparr>)))"

text \<open>
  The drag or pan branch of \<^verbatim>\<open>handlePointerMove\<close>, reached when no transform is active.
\<close>

definition movePan :: "appState \<Rightarrow> pointerEvent \<Rightarrow> appState option" where
  "movePan st e =
     (case (dragStartRef st, initialLayerStateRef st) of
        (Some (startX, startY), Some (initialX, initialY)) \<Rightarrow>
          if isDraggingLayerRef st \<and> truthyStr (selectedLayerId st) then
            (case find (\<lambda>l. Some (lid l) = selectedLayerId st) (layers st) of
               None \<Rightarrow> Some st
             | Some layer \<Rightarrow>
                 if \<not> isLocked layer then
                   (case (jsDiv (clientX e - startX) (vscale (viewport st)),
                          jsDiv (clientY e - startY) (vscale (viewport st))) of
                      (Some dx, Some dy) \<Rightarrow>
                        Some (st\<lparr>layers := updateLayer (the (selectedLayerId st))
                                 (\<lambda>l. l\<lparr>lx := initialX + dx, ly := initialY + dy\<rparr>) (layers st)\<rparr>)
                    | _ \<Rightarrow> None)
                 else Some st)
          else if \<not> isDraggingLayerRef st then
            (let panDx = clientX e - startX;
                 panDy = clientY e - startY
             in Some (st\<lparr>viewport := (viewport st)\<lparr>vx := initialX + panDx, vy := initialY + panDy\<rparr>\<rparr>))
          else Some st
      | _ \<Rightarrow> Some st)"

text \<open>
  \<^verbatim>\<open>handlePointerMove\<close>. The result is \<open>None\<close> when a division by zero would put a
  non-finite number into the store.
\<close>

definition handlePointerMove :: "appState \<Rightarrow> pointerEvent \<Rightarrow> appState option" where
  "handlePointerMove st e =
     (case (transformRef st, selectedLayerId st) of
        (Some t, Some sel) \<Rightarrow>
          if sel = [] then movePan st e
          else if ttype t = Rotate then
            (let currentAngle = atan2 (clientY e - centerY t) (clientX e - centerX t);
                 startAngle = orNum (startCursorAngle t) 0;
                 delta = currentAngle - startAngle;
                 deltaDeg = delta * (180 / pi)
             in Some (st\<lparr>layers := updateLayer sel
                        (\<lambda>l. l\<lparr>rotation := startVal t + deltaDeg\<rparr>) (layers st)\<rparr>))
          else
            (let currentDist = hypot (clientX e - centerX t) (clientY e - centerY t);
                 startDist = orNum (startCursorDist t) 1
             in case jsDiv currentDist startDist of
                  None \<Rightarrow> None
                | Some scaleRatio \<Rightarrow>
                    (let newScale = max 0.1 (startVal t * scaleRatio)
                     in Some (st\<lparr>layers := updateLayer sel
                                (\<lambda>l. l\<lparr>scale := newScale\<rparr>) (layers st)\<rparr>)))
      | _ \<Rightarrow> movePan st e)"

definition handlePointerUp :: "appState \<Rightarrow> appState" where
  "handlePointerUp st =
     st\<lparr>dragStartRef := None, initialLayerStateRef := None,
        isDraggingLayerRef := False, transformRef := None\<rparr>"

text \<open>The lock button of the layers panel, on the row of \<open>layer\<close>.\<close>

definition toggleLock :: "layer \<Rightarrow> appState \<Rightarrow> appState" where
  "toggleLock layer st =
     st\<lparr>layers := updateLayer (lid layer) (\<lambda>l. l\<lparr>isLocked := \<not> isLocked layer\<rparr>) (layers st)\<rparr>"

text \<open>Concrete states: one selected layer at the origin, no gesture active.\<close>

definition gestureStart :: appState where
  "gestureStart =
     \<lparr>layers = [sampleLayer ''1'' 1], selectedLayerId = Some ''1'',
      viewport = initialViewport, dragStartRef = None, initialLayerStateRef = None,
      isDraggingLayerRef = False, transformRef = None\<rparr>"


text \<open>A scale gesture whose anchor distance is 0: the pointer went down on the centre.\<close>

definition zeroAnchorState :: appState where
  "zeroAnchorState =
     gestureStart\<lparr>transformRef := Some \<lparr>ttype = Scale, startVal = 1, startCursorAngle = None,
        startCursorDist = Some 0, centerX = 150, centerY = 150\<rparr>\<rparr>"

subsection \<open>Sequences of mask toggles\<close>

text \<open>
  What happens to the store between the creation of a layer and a toggle: toggles of
  the background removal (each with the outcome of its service call) and changes of the
  selection.
\<close>

datatype maskEvent = Toggle "string \<Rightarrow> string option" | Select "string option"

definition maskStep :: "appState \<Rightarrow> maskEvent \<Rightarrow> appState" where
  "maskStep st ev =
     (case ev of
        Toggle rb \<Rightarrow> handleRemoveBackground rb st
      | Select i \<Rightarrow> st\<lparr>selectedLayerId := i\<rparr>)"

definition runMaskEvents :: "appState \<Rightarrow> maskEvent list \<Rightarrow> appState" where
  "runMaskEvents st evs = foldl maskStep st evs"

text \<open>The state before any layer is added, and a service that always returns a mask.\<close>

definition emptyApp :: appState where
  "emptyApp =
     \<lparr>layers = [], selectedLayerId = None, viewport = initialViewport, dragStartRef = None,
      initialLayerStateRef = None, isDraggingLayerRef = False, transformRef = None\<rparr>"

definition maskService :: "string \<Rightarrow> string option" where
  "maskService s = Some (''masked:'' @ s)"

definition toggledThrice :: appState where
  "toggledThrice =
     runMaskEvents (addLayer ''1'' 1000 800 ''data:a'' ''Image Layer'' emptyApp)
       [Toggle maskService, Toggle maskService, Toggle maskService]"

text \<open>Concrete stores: two and three layers in order, and one with a tie in \<open>zIndex\<close>.\<close>

definition twoLayers :: "layer list" where
  "twoLayers = [sampleLayer ''1'' 1, sampleLayer ''2'' 2]"

definition threeLayers :: "layer list" where
  "threeLayers = [sampleLayer ''1'' 1, sampleLayer ''2'' 2, sampleLayer ''3'' 3]"

definition tiedLayers :: "layer list" where
  "tiedLayers = [sampleLayer ''1'' 1, sampleLayer ''2'' 2, sampleLayer ''3'' 2]"

subsection \<open>Mask compositor (applyMaskToImage)\<close>

text \<open>
  The levels adjustment: the value of \<^verbatim>\<open>alpha\<close> after the \<^verbatim>\<open>if\<close> chain, for a mask
  byte. The differences \<^verbatim>\<open>alpha - blackPoint\<close> and \<^verbatim>\<open>whitePoint - blackPoint\<close> are
  exact.
\<close>

definition levelsAlpha :: "nat \<Rightarrow> real" where
  "levelsAlpha maskVal =
     (let alpha = of_nat maskVal; blackPoint = 50; whitePoint = 200
      in if alpha \<le> blackPoint then 0
         else if alpha \<ge> whitePoint then 255
         else roundDouble (roundDouble ((alpha - blackPoint) / (whitePoint - blackPoint)) * 255))"

text \<open>A store of an integer into a \<^verbatim>\<open>Uint8ClampedArray\<close>.\<close>

definition toUint8Clamped :: "int \<Rightarrow> nat" where
  "toUint8Clamped v = (if v < 0 then 0 else if 255 < v then 255 else nat v)"

text \<open>
  \<^verbatim>\<open>Math.floor(alpha)\<close> as stored in \<^verbatim>\<open>data[i + 3]\<close>. A read of \<^verbatim>\<open>mData[i]\<close> past
  the end is \<^verbatim>\<open>undefined\<close> (\<open>None\<close>): both comparisons are false, the arithmetic
  gives \<^verbatim>\<open>NaN\<close>, and the array stores 0.
\<close>

definition alphaByte :: "nat option \<Rightarrow> nat" where
  "alphaByte maskVal =
     (case maskVal of
        None \<Rightarrow> 0
      | Some m \<Rightarrow> toUint8Clamped \<lfloor>levelsAlpha m\<rfloor>)"

text \<open>
  The loop over the pixel buffer \<open>data\<close> of the original (four bytes a pixel: R, G, B,
  A), with \<open>mData\<close> the buffer of the mask. A write past the end is ignored, as
  \<open>list_update\<close> does.
\<close>

function applyMaskLoop :: "nat \<Rightarrow> nat list \<Rightarrow> nat list \<Rightarrow> nat list" where
  "applyMaskLoop i mData data =
     (if i < length data then
        applyMaskLoop (i + 4) mData
          (data[i + 3 := alphaByte (if i < length mData then Some (mData ! i) else None)])
      else data)"
  by pat_completeness auto

termination
  by (relation "measure (\<lambda>(i, mData, data). length data - i)") auto

declare applyMaskLoop.simps [simp del]

text \<open>Two pixels and their mask, for a concrete run.\<close>

definition samplePixels :: "nat list" where
  "samplePixels = [10, 20, 30, 255, 40, 50, 60, 255]"

definition sampleMask :: "nat list" where
  "sampleMask = [125, 125, 125, 255, 255, 255, 255, 255]"

definition applyMask :: "nat list \<Rightarrow> nat list \<Rightarrow> nat list" where
  "applyMask mData data = applyMaskLoop 0 mData data"

subsection \<open>Export: transformed corners, image load\<close>

text \<open>The transformed corners of all the layers of a list, as the loop computes them.\<close>

definition transformedCornersF ::
  "(real \<Rightarrow> real) \<Rightarrow> (real \<Rightarrow> real) \<Rightarrow> (real \<Rightarrow> real) \<Rightarrow> layer list \<Rightarrow> (real \<times> real) list" where
  "transformedCornersF fl mcos msin ls =
     concat (map (\<lambda>l. map (transformCornerF fl mcos msin l) (cornersF fl l)) ls)"

text \<open>The four tests of the corner loop, on a point.\<close>

definition extendBounds :: "bounds \<Rightarrow> real \<times> real \<Rightarrow> bounds" where
  "extendBounds b p =
     \<lparr>minX = Some (case minX b of None \<Rightarrow> fst p | Some v \<Rightarrow> min v (fst p)),
      minY = Some (case minY b of None \<Rightarrow> snd p | Some v \<Rightarrow> min v (snd p)),
      maxX = Some (case maxX b of None \<Rightarrow> fst p | Some v \<Rightarrow> max v (fst p)),
      maxY = Some (case maxY b of None \<Rightarrow> snd p | Some v \<Rightarrow> max v (snd p))\<rparr>"

text \<open>A number that a double holds exactly.\<close>

definition representable :: "real \<Rightarrow> bool" where
  "representable r = (roundDouble r = r)"

text \<open>
  The callback \<^verbatim>\<open>img.onload\<close> of \<^verbatim>\<open>addLayer\<close>, for an image of \<open>imgWidth\<close> by
  \<open>imgHeight\<close> pixels: the width stays \<^verbatim>\<open>INITIAL_LAYER_WIDTH\<close>, the height follows the
  aspect ratio. With \<open>imgHeight = 0\<close> the ratio is \<^verbatim>\<open>Infinity\<close> and the height 0; a
  ratio of 0 or \<^verbatim>\<open>NaN\<close> gives a non-finite height, which is \<open>None\<close>.
\<close>

definition addLayerOnLoad :: "string \<Rightarrow> nat \<Rightarrow> nat \<Rightarrow> appState \<Rightarrow> appState option" where
  "addLayerOnLoad i imgWidth imgHeight st =
     (if imgWidth = 0 then None
      else
        (let h = (if imgHeight = 0 then 0
                  else (let ratio = roundDouble (real imgWidth / real imgHeight)
                        in roundDouble (INITIAL_LAYER_WIDTH / ratio)))
         in Some (st\<lparr>layers := updateLayer i
                   (\<lambda>l. l\<lparr>width := INITIAL_LAYER_WIDTH, height := h\<rparr>) (layers st)\<rparr>)))"

text \<open>
  The store after a layer was added for an image of 1920 by 1080 pixels and the image
  loaded; a layer of 300 by 300 at \<open>x = 350.3333333333333\<close>, the double written as a
  fraction; and a store of one visible and one hidden layer.
\<close>

definition wideImageState :: appState where
  "wideImageState =
     emptyApp\<lparr>layers := [(sampleLayer ''1'' 1)\<lparr>lx := 350, ly := 250, height := 168.75\<rparr>],
              selectedLayerId := Some ''1''\<rparr>"

definition draggedLayer :: layer where
  "draggedLayer = (sampleLayer ''1'' 1)\<lparr>lx := 6163129177560405 / 17592186044416\<rparr>"

definition oneVisible :: "layer list" where
  "oneVisible = [sampleLayer ''1'' 1, (sampleLayer ''2'' 2)\<lparr>isVisible := False\<rparr>]"

text \<open>
  The least and the greatest coordinate that the loop computes for an unrotated,
  unscaled layer at \<open>p\<close> of size \<open>w\<close>, when \<open>w / 2\<close> is exact.
\<close>

definition edgeLo :: "real \<Rightarrow> real \<Rightarrow> real" where
  "edgeLo p w = roundDouble (roundDouble (p + w / 2) - w / 2)"

definition edgeHi :: "real \<Rightarrow> real \<Rightarrow> real" where
  "edgeHi p w = roundDouble (roundDouble (p + w / 2) + w / 2)"

text \<open>The size of the canvas that an export downloads.\<close>

definition canvasSize :: "exportOutcome \<Rightarrow> (nat \<times> nat) option" where
  "canvasSize out =
     (case out of Download plan \<Rightarrow> Some (canvasWidth plan, canvasHeight plan) | _ \<Rightarrow> None)"


section \<open>Theorems\<close>

subsection \<open>Viewport zoom\<close>

lemma handleWheel_keeps_range:
  "MIN_ZOOM \<le> vscale v \<and> vscale v \<le> MAX_ZOOM \<Longrightarrow>
     MIN_ZOOM \<le> vscale (handleWheel v e) \<and> vscale (handleWheel v e) \<le> MAX_ZOOM"
  by (auto simp add: handleWheel_def MIN_ZOOM_def MAX_ZOOM_def Let_def min_def max_def)

lemma foldl_handleWheel_range:
  "MIN_ZOOM \<le> vscale v \<and> vscale v \<le> MAX_ZOOM \<Longrightarrow>
     MIN_ZOOM \<le> vscale (foldl handleWheel v es) \<and> vscale (foldl handleWheel v es) \<le> MAX_ZOOM"
proof (induction es arbitrary: v)
  case Nil
  then show ?case by simp
next
  case (Cons e es)
  from Cons.prems have "MIN_ZOOM \<le> vscale (handleWheel v e) \<and> vscale (handleWheel v e) \<le> MAX_ZOOM"
    by (rule handleWheel_keeps_range)
  then show ?case
    using Cons.IH [of "handleWheel v e"] by simp
qed

text \<open>
  Claim C9. With the zoom modifier (ctrl or meta) held, a wheel event adds
  \<open>- deltaY * 0.001\<close> to the viewport scale and clamps the sum to \<open>[0.1, 5]\<close>; the other
  viewport fields are kept. Hence a viewport whose scale lies in \<open>[0.1, 5]\<close> (as the
  initial scale 1 does) stays in that range after any sequence of wheel events.
\<close>

theorem C9_wheel_zoom_clamped:
  assumes "0.1 \<le> vscale v" and "vscale v \<le> 5"
  shows "(ctrlKey e \<or> metaKey e \<longrightarrow>
            handleWheel v e = v\<lparr>vscale := min (max (vscale v - deltaY e * 0.001) 0.1) 5\<rparr>)
         \<and> 0.1 \<le> vscale (handleWheel v e) \<and> vscale (handleWheel v e) \<le> 5
         \<and> 0.1 \<le> vscale (foldl handleWheel v es) \<and> vscale (foldl handleWheel v es) \<le> 5
         \<and> 0.1 \<le> vscale initialViewport \<and> vscale initialViewport \<le> 5"
proof -
  from assms have r: "MIN_ZOOM \<le> vscale v \<and> vscale v \<le> MAX_ZOOM"
    by (simp add: MIN_ZOOM_def MAX_ZOOM_def)
  have a: "ctrlKey e \<or> metaKey e \<longrightarrow>
            handleWheel v e = v\<lparr>vscale := min (max (vscale v - deltaY e * 0.001) 0.1) 5\<rparr>"
    by (simp add: handleWheel_def MIN_ZOOM_def MAX_ZOOM_def Let_def)
  have b: "0.1 \<le> vscale (handleWheel v e) \<and> vscale (handleWheel v e) \<le> 5"
    using handleWheel_keeps_range [OF r, of e] by (simp add: MIN_ZOOM_def MAX_ZOOM_def)
  have c: "0.1 \<le> vscale (foldl handleWheel v es) \<and> vscale (foldl handleWheel v es) \<le> 5"
    using foldl_handleWheel_range [OF r, of es] by (simp add: MIN_ZOOM_def MAX_ZOOM_def)
  have d: "0.1 \<le> vscale initialViewport \<and> vscale initialViewport \<le> 5"
    by (simp add: initialViewport_def)
  from a b c d show ?thesis by blast
qed

theorem C9_wheel_zoom_clamped_witness:
  "0.1 \<le> vscale \<lparr>vx = 0, vy = 0, vscale = 4.9\<rparr>
   \<and> vscale \<lparr>vx = 0, vy = 0, vscale = 4.9\<rparr> \<le> 5
   \<and> handleWheel \<lparr>vx = 0, vy = 0, vscale = 4.9\<rparr>
         \<lparr>ctrlKey = True, metaKey = False, deltaY = - 500\<rparr> = \<lparr>vx = 0, vy = 0, vscale = 5\<rparr>
   \<and> vscale (foldl handleWheel \<lparr>vx = 0, vy = 0, vscale = 4.9\<rparr>
             [\<lparr>ctrlKey = True, metaKey = False, deltaY = - 500\<rparr>,
              \<lparr>ctrlKey = False, metaKey = True, deltaY = 9000\<rparr>]) \<le> 5"
proof -
  have h1: "0.1 \<le> vscale \<lparr>vx = 0, vy = 0, vscale = 4.9\<rparr>" by simp
  have h2: "vscale \<lparr>vx = 0, vy = 0, vscale = 4.9\<rparr> \<le> 5" by simp
  note th = C9_wheel_zoom_clamped [OF h1 h2,
        of "\<lparr>ctrlKey = True, metaKey = False, deltaY = - 500\<rparr>"
           "[\<lparr>ctrlKey = True, metaKey = False, deltaY = - 500\<rparr>,
             \<lparr>ctrlKey = False, metaKey = True, deltaY = 9000\<rparr>]"]
  from th have a: "handleWheel \<lparr>vx = 0, vy = 0, vscale = 4.9\<rparr>
         \<lparr>ctrlKey = True, metaKey = False, deltaY = - 500\<rparr> = \<lparr>vx = 0, vy = 0, vscale = 5\<rparr>"
    by simp
  from th have b: "vscale (foldl handleWheel \<lparr>vx = 0, vy = 0, vscale = 4.9\<rparr>
             [\<lparr>ctrlKey = True, metaKey = False, deltaY = - 500\<rparr>,
              \<lparr>ctrlKey = False, metaKey = True, deltaY = 9000\<rparr>]) \<le> 5"
    by blast
  from h1 h2 a b show ?thesis by blast
qed

subsection \<open>Export: no visible layers\<close>

lemma exportBody_no_visible:
  "exportBody mc ms c ld ls = Inl NoVisibleLayers \<longleftrightarrow> filter isVisible ls = []"
  by (simp add: exportBody_def Let_def)

text \<open>
  Claim C6, as stated, at the empty store: no layer of it is visible, and the export
  returns at once, with no error raised.
\<close>

theorem C6_empty_store_counterexample:
  "filter isVisible ([] :: layer list) = []
   \<and> handleExport roundedCos roundedSin True allLoad [] \<noteq> ExportAlert NoVisibleLayers"
  by (simp add: handleExport_def)

text \<open>
  Claim C6, amended. For every store that is not empty and in which no layer is visible,
  the export filters the layers to the visible ones, finds none and fails with the error
  "No visible layers" (caught in the same function, which logs it and shows an alert);
  no canvas is made.
\<close>

theorem C6_no_visible_layers_error:
  assumes "ls \<noteq> []" and "\<forall>l \<in> set ls. \<not> isVisible l"
  shows "exportBody mc ms c ld ls = Inl NoVisibleLayers
         \<and> handleExport mc ms c ld ls = ExportAlert NoVisibleLayers"
proof -
  from assms(2) have f: "filter isVisible ls = []"
    by (simp add: filter_empty_conv)
  then have b: "exportBody mc ms c ld ls = Inl NoVisibleLayers"
    by (simp add: exportBody_no_visible)
  with assms(1) show ?thesis
    by (simp add: handleExport_def)
qed

theorem C6_no_visible_layers_error_witness:
  "[(sampleLayer ''1'' 1)\<lparr>isVisible := False\<rparr>] \<noteq> []
   \<and> filter isVisible [(sampleLayer ''1'' 1)\<lparr>isVisible := False\<rparr>] = []
   \<and> handleExport roundedCos roundedSin True allLoad [(sampleLayer ''1'' 1)\<lparr>isVisible := False\<rparr>]
       = ExportAlert NoVisibleLayers"
proof -
  have h1: "[(sampleLayer ''1'' 1)\<lparr>isVisible := False\<rparr>] \<noteq> []" by simp
  have h2: "\<forall>l \<in> set [(sampleLayer ''1'' 1)\<lparr>isVisible := False\<rparr>]. \<not> isVisible l" by simp
  have h3: "filter isVisible [(sampleLayer ''1'' 1)\<lparr>isVisible := False\<rparr>] = []" by simp
  from C6_no_visible_layers_error [OF h1 h2, of roundedCos roundedSin True allLoad] h1 h3
  show ?thesis by blast
qed

text \<open>
  Claim C10. On the empty store the export returns at once: no error and no canvas.
  The error "No visible layers" is the outcome exactly when the store is not empty and
  every layer in it is invisible.
\<close>

theorem C10_empty_store_returns:
  "handleExport mc ms c ld [] = NoExport
   \<and> (handleExport mc ms c ld ls = ExportAlert NoVisibleLayers
        \<longleftrightarrow> ls \<noteq> [] \<and> (\<forall>l \<in> set ls. \<not> isVisible l))"
proof -
  have a: "handleExport mc ms c ld [] = NoExport"
    by (simp add: handleExport_def)
  have b: "handleExport mc ms c ld ls = ExportAlert NoVisibleLayers
        \<longleftrightarrow> ls \<noteq> [] \<and> (\<forall>l \<in> set ls. \<not> isVisible l)"
  proof (cases "ls = []")
    case True
    then show ?thesis by (simp add: handleExport_def)
  next
    case False
    have "handleExport mc ms c ld ls = ExportAlert NoVisibleLayers
            \<longleftrightarrow> exportBody mc ms c ld ls = Inl NoVisibleLayers"
      using False by (simp add: handleExport_def split: sum.splits)
    also have "\<dots> \<longleftrightarrow> filter isVisible ls = []"
      by (rule exportBody_no_visible)
    also have "\<dots> \<longleftrightarrow> (\<forall>l \<in> set ls. \<not> isVisible l)"
      by (simp add: filter_empty_conv)
    finally show ?thesis using False by simp
  qed
  from a b show ?thesis by blast
qed

theorem C10_empty_store_returns_witness:
  "handleExport roundedCos roundedSin True allLoad [] = NoExport
   \<and> handleExport roundedCos roundedSin True allLoad
       [(sampleLayer ''1'' 1)\<lparr>isVisible := False\<rparr>, (sampleLayer ''2'' 2)\<lparr>isVisible := False\<rparr>]
       = ExportAlert NoVisibleLayers"
proof -
  have h: "[(sampleLayer ''1'' 1)\<lparr>isVisible := False\<rparr>, (sampleLayer ''2'' 2)\<lparr>isVisible := False\<rparr>] \<noteq> []
     \<and> (\<forall>l \<in> set [(sampleLayer ''1'' 1)\<lparr>isVisible := False\<rparr>,
                    (sampleLayer ''2'' 2)\<lparr>isVisible := False\<rparr>]. \<not> isVisible l)"
    by simp
  from C10_empty_store_returns [of roundedCos roundedSin True allLoad
      "[(sampleLayer ''1'' 1)\<lparr>isVisible := False\<rparr>, (sampleLayer ''2'' 2)\<lparr>isVisible := False\<rparr>]"] h
  show ?thesis by blast
qed

subsection \<open>Bounding boxes and rotation\<close>









subsection \<open>Scaling gesture\<close>

lemma orNum_one_nonzero: "orNum v 1 \<noteq> 0"
  by (simp add: orNum_def split: option.splits)

lemma updateLayer_scale_floor:
  "\<forall>l \<in> set (updateLayer sel (\<lambda>l. l\<lparr>scale := max 0.1 v\<rparr>) ls). lid l = sel \<longrightarrow> 0.1 \<le> scale l"
proof (intro ballI impI)
  fix l
  assume "l \<in> set (updateLayer sel (\<lambda>l. l\<lparr>scale := max 0.1 v\<rparr>) ls)" and s: "lid l = sel"
  then obtain l0 where "l = (if lid l0 = sel then l0\<lparr>scale := max 0.1 v\<rparr> else l0)"
    unfolding updateLayer_def by (elim imageE | simp only: set_map)+
  with s have "scale l = max 0.1 v"
    by (cases "lid l0 = sel") simp_all
  then show "0.1 \<le> scale l" by (simp only: max.cobounded1)
qed

lemma hypot_90_120: "hypot 90 120 = 150"
  by (simp add: hypot_def real_sqrt_unique)

lemma hypot_180_240: "hypot 180 240 = 300"
  by (simp add: hypot_def real_sqrt_unique)

lemma transformStart_on_centre:
  "handleTransformStart gestureStart \<lparr>clientX = 150, clientY = 150\<rparr> Scale = zeroAnchorState"
  by (simp add: handleTransformStart_def gestureStart_def getSelectedLayer_def sampleLayer_def
      initialViewport_def hypot_def zeroAnchorState_def Let_def)

text \<open>
  Claim C8. On a pointer-move of a scaling gesture the divisor is
  \<^verbatim>\<open>startCursorDist || 1\<close>, which is never 0: the anchor distance 0 is replaced by 1. So
  no division by zero happens, the move returns a state, and in it the selected layer
  has the scale \<open>max 0.1 (startVal * (currentDist / startDist))\<close>, which is at least 0.1.
\<close>

theorem C8_scale_gesture_defined:
  assumes "transformRef st = Some t" and "ttype t = Scale"
    and "selectedLayerId st = Some sel" and "sel \<noteq> []"
  shows "orNum (startCursorDist t) 1 \<noteq> 0
     \<and> (startCursorDist t = Some 0 \<longrightarrow> orNum (startCursorDist t) 1 = 1)
     \<and> (\<exists>st'. handlePointerMove st e = Some st'
           \<and> layers st' = updateLayer sel
                (\<lambda>l. l\<lparr>scale := max 0.1 (startVal t *
                   (hypot (clientX e - centerX t) (clientY e - centerY t)
                      / orNum (startCursorDist t) 1))\<rparr>)
                (layers st)
           \<and> (\<forall>l \<in> set (layers st'). lid l = sel \<longrightarrow> 0.1 \<le> scale l))"
proof -
  have a: "orNum (startCursorDist t) 1 \<noteq> 0" by (rule orNum_one_nonzero)
  have b: "startCursorDist t = Some 0 \<longrightarrow> orNum (startCursorDist t) 1 = 1"
    by (simp add: orNum_def)
  define st' where "st' = st\<lparr>layers := updateLayer sel
                (\<lambda>l. l\<lparr>scale := max 0.1 (startVal t *
                   (hypot (clientX e - centerX t) (clientY e - centerY t)
                      / orNum (startCursorDist t) 1))\<rparr>)
                (layers st)\<rparr>"
  have c: "handlePointerMove st e = Some st'"
    using assms a by (simp add: handlePointerMove_def jsDiv_def Let_def st'_def)
  have d: "layers st' = updateLayer sel
                (\<lambda>l. l\<lparr>scale := max 0.1 (startVal t *
                   (hypot (clientX e - centerX t) (clientY e - centerY t)
                      / orNum (startCursorDist t) 1))\<rparr>)
                (layers st)"
    by (simp add: st'_def)
  have e: "\<forall>l \<in> set (layers st'). lid l = sel \<longrightarrow> 0.1 \<le> scale l"
    unfolding d by (rule updateLayer_scale_floor)
  from a b c d e show ?thesis by blast
qed

theorem C8_scale_gesture_defined_witness:
  "handleTransformStart gestureStart \<lparr>clientX = 150, clientY = 150\<rparr> Scale = zeroAnchorState
   \<and> (\<exists>st'. handlePointerMove zeroAnchorState \<lparr>clientX = 240, clientY = 270\<rparr> = Some st'
          \<and> map scale (layers st') = [150])"
proof -
  let ?t = "\<lparr>ttype = Scale, startVal = 1, startCursorAngle = None,
        startCursorDist = Some 0, centerX = 150, centerY = 150\<rparr>"
  have h1: "transformRef zeroAnchorState = Some ?t"
    by (simp add: zeroAnchorState_def)
  have h2: "ttype ?t = Scale" by simp
  have h3: "selectedLayerId zeroAnchorState = Some ''1''"
    by (simp add: zeroAnchorState_def gestureStart_def)
  have h4: "''1'' \<noteq> []" by simp
  from C8_scale_gesture_defined [OF h1 h2 h3 h4, of "\<lparr>clientX = 240, clientY = 270\<rparr>"]
  obtain st' where m: "handlePointerMove zeroAnchorState \<lparr>clientX = 240, clientY = 270\<rparr> = Some st'"
    and l: "layers st' = updateLayer ''1''
                (\<lambda>l. l\<lparr>scale := max 0.1 (startVal ?t *
                   (hypot (clientX \<lparr>clientX = 240, clientY = 270\<rparr> - centerX ?t)
                          (clientY \<lparr>clientX = 240, clientY = 270\<rparr> - centerY ?t)
                      / orNum (startCursorDist ?t) 1))\<rparr>)
                (layers zeroAnchorState)"
    by blast
  have "layers zeroAnchorState = [sampleLayer ''1'' 1]"
    by (simp add: zeroAnchorState_def gestureStart_def)
  with l have "map scale (layers st') = [150]"
    by (simp add: updateLayer_def sampleLayer_def orNum_def hypot_90_120)
  with m have "\<exists>st'. handlePointerMove zeroAnchorState \<lparr>clientX = 240, clientY = 270\<rparr> = Some st'
          \<and> map scale (layers st') = [150]"
    by (intro exI [of _ st'] conjI)
  with transformStart_on_centre show ?thesis by (rule conjI)
qed

subsection \<open>Locked layers\<close>

lemma pointerDown_locked_ignored:
  assumes "find (\<lambda>l. Some (lid l) = Some i) (layers st) = Some layer"
    and "isLocked layer" and "i \<noteq> []"
  shows "handlePointerDown st e (Some i) = st"
  using assms by (simp add: handlePointerDown_def truthyStr_def)

lemma drag_move_locked_ignored:
  assumes "transformRef st = None"
    and "find (\<lambda>l. Some (lid l) = selectedLayerId st) (layers st) = Some layer"
    and "isLocked layer" and "isDraggingLayerRef st"
  shows "handlePointerMove st e = Some st"
proof -
  from assms(1) have "handlePointerMove st e = movePan st e"
    by (simp add: handlePointerMove_def)
  also from assms(2-4) have "movePan st e = Some st"
    by (cases "dragStartRef st"; cases "initialLayerStateRef st")
      (simp_all add: movePan_def split: prod.splits)
  finally show ?thesis .
qed

lemma transformStart_scale_150:
  "handleTransformStart gestureStart \<lparr>clientX = 240, clientY = 270\<rparr> Scale
     = gestureStart\<lparr>transformRef := Some \<lparr>ttype = Scale, startVal = 1, startCursorAngle = None,
          startCursorDist = Some 150, centerX = 150, centerY = 150\<rparr>\<rparr>"
  by (simp add: handleTransformStart_def gestureStart_def getSelectedLayer_def sampleLayer_def
      initialViewport_def hypot_90_120 Let_def)

text \<open>
  Claim C7, at a failing input. A scale gesture starts on the handle of the selected,
  unlocked layer; the layer is then locked (the lock button of the layers panel) while
  the pointer is still down; the next pointer-move doubles the scale of the layer, which
  is locked. The transform branch of \<^verbatim>\<open>handlePointerMove\<close> has no test of
  \<^verbatim>\<open>isLocked\<close>, which its drag branch has.
\<close>

theorem C7_locked_layer_scaled_by_move:
  "map isLocked (layers (toggleLock (sampleLayer ''1'' 1)
       (handleTransformStart gestureStart \<lparr>clientX = 240, clientY = 270\<rparr> Scale))) = [True]
   \<and> map_option (\<lambda>s. map scale (layers s))
       (handlePointerMove
          (toggleLock (sampleLayer ''1'' 1)
             (handleTransformStart gestureStart \<lparr>clientX = 240, clientY = 270\<rparr> Scale))
          \<lparr>clientX = 330, clientY = 390\<rparr>) = Some [2]
   \<and> map scale (layers gestureStart) = [1]"
  unfolding transformStart_scale_150
  apply (simp add: handlePointerMove_def gestureStart_def toggleLock_def)
  apply (simp add: orNum_def jsDiv_def hypot_180_240 Let_def)
  apply (simp add: updateLayer_def sampleLayer_def)
  done

subsection \<open>The original source across mask toggles\<close>

lemma find_updateLayer:
  assumes "\<And>l. lid (f l) = lid l"
  shows "find (\<lambda>l. lid l = i) (updateLayer j f ls)
           = (if i = j then map_option f (find (\<lambda>l. lid l = i) ls) else find (\<lambda>l. lid l = i) ls)"
  using assms by (induction ls) (auto simp add: updateLayer_def)

lemma getSelectedLayer_Some:
  "selectedLayerId st = Some j \<Longrightarrow> getSelectedLayer st = find (\<lambda>l. lid l = j) (layers st)"
  by (simp add: getSelectedLayer_def)

lemma find_lid: "find (\<lambda>l. lid l = j) ls = Some l \<Longrightarrow> lid l = j"
  by (induction ls) (auto split: if_splits)

lemma handleRemoveBackground_keeps_original:
  assumes f: "find (\<lambda>l. lid l = i) (layers st) = Some l"
    and o: "originalSrc l = Some orig" and ne: "orig \<noteq> []"
    and m: "isMasked l \<noteq> Some True \<longrightarrow> src l = orig"
  shows "\<exists>l'. find (\<lambda>l. lid l = i) (layers (handleRemoveBackground rb st)) = Some l'
           \<and> originalSrc l' = Some orig \<and> (isMasked l' \<noteq> Some True \<longrightarrow> src l' = orig)"
proof (cases "selectedLayerId st")
  case None
  then have "handleRemoveBackground rb st = st"
    by (simp add: handleRemoveBackground_def truthyStr_def)
  with f o m show ?thesis by simp
next
  case (Some j)
  note sel = getSelectedLayer_Some [OF Some]
  show ?thesis
  proof (cases "find (\<lambda>l. lid l = j) (layers st)")
    case None
    with sel have "handleRemoveBackground rb st = st"
      by (simp add: handleRemoveBackground_def)
    with f o m show ?thesis by simp
  next
    case (Some layer)
    then have lj: "lid layer = j" by (rule find_lid)
    show ?thesis
    proof (cases "i = j")
      case False
      have "find (\<lambda>l. lid l = i) (layers (handleRemoveBackground rb st)) = Some l"
        using sel Some lj False f
        by (simp add: handleRemoveBackground_def find_updateLayer split: option.splits)
      with o m show ?thesis by simp
    next
      case True
      with Some f have ll: "layer = l" by simp
      show ?thesis
        using sel Some lj True f o m ne ll
        by (simp add: handleRemoveBackground_def find_updateLayer truthyStr_def orStr_def
            split: option.splits)
    qed
  qed
qed

lemma maskStep_keeps_original:
  assumes "find (\<lambda>l. lid l = i) (layers st) = Some l"
    and "originalSrc l = Some orig" and "orig \<noteq> []"
    and "isMasked l \<noteq> Some True \<longrightarrow> src l = orig"
  shows "\<exists>l'. find (\<lambda>l. lid l = i) (layers (maskStep st ev)) = Some l'
           \<and> originalSrc l' = Some orig \<and> (isMasked l' \<noteq> Some True \<longrightarrow> src l' = orig)"
proof (cases ev)
  case (Toggle rb)
  then show ?thesis
    using handleRemoveBackground_keeps_original [OF assms, of rb] by (simp add: maskStep_def)
next
  case (Select j)
  with assms show ?thesis by (simp add: maskStep_def)
qed

lemma runMaskEvents_keeps_original:
  assumes "find (\<lambda>l. lid l = i) (layers st) = Some l"
    and "originalSrc l = Some orig" and "orig \<noteq> []"
    and "isMasked l \<noteq> Some True \<longrightarrow> src l = orig"
  shows "\<exists>l'. find (\<lambda>l. lid l = i) (layers (runMaskEvents st evs)) = Some l'
           \<and> originalSrc l' = Some orig \<and> (isMasked l' \<noteq> Some True \<longrightarrow> src l' = orig)"
  using assms
proof (induction evs arbitrary: st l)
  case Nil
  then show ?case by (simp add: runMaskEvents_def)
next
  case (Cons ev evs)
  from maskStep_keeps_original [OF Cons.prems, of ev]
  obtain l1 where 1: "find (\<lambda>l. lid l = i) (layers (maskStep st ev)) = Some l1"
    and 2: "originalSrc l1 = Some orig" and 3: "isMasked l1 \<noteq> Some True \<longrightarrow> src l1 = orig"
    by (elim exE conjE)
  from Cons.IH [OF 1 2 Cons.prems(3) 3] show ?case
    by (simp add: runMaskEvents_def)
qed

lemma find_append_new:
  "i \<notin> set (map lid ls) \<Longrightarrow> lid n = i \<Longrightarrow> find (\<lambda>l. lid l = i) (ls @ [n]) = Some n"
  by (induction ls) auto

lemma addLayer_new_layer:
  assumes "now \<notin> set (map lid (layers st))"
  shows "\<exists>l. find (\<lambda>l. lid l = now) (layers (addLayer now iw ih source nm st)) = Some l
           \<and> originalSrc l = Some source \<and> src l = source \<and> isMasked l = Some False"
  using assms by (simp add: addLayer_def Let_def find_append_new)

lemma restore_step:
  assumes f: "find (\<lambda>l. lid l = i) (layers st) = Some l"
    and o: "originalSrc l = Some orig" and ne: "orig \<noteq> []"
    and m: "isMasked l = Some True" and s: "selectedLayerId st = Some i" and i: "i \<noteq> []"
  shows "\<exists>l'. find (\<lambda>l. lid l = i) (layers (handleRemoveBackground rb st)) = Some l'
           \<and> src l' = orig \<and> isMasked l' = Some False \<and> originalSrc l' = Some orig"
  using assms getSelectedLayer_Some [OF s] find_lid [OF f]
  by (simp add: handleRemoveBackground_def find_updateLayer truthyStr_def)

text \<open>
  Claim C2. A layer is created by \<^verbatim>\<open>addLayer\<close> from a non-empty source (every
  caller passes one) under a fresh, non-empty id. After any sequence of mask toggles and
  selection changes the layer still carries that source as \<open>originalSrc\<close>; whenever it
  is not masked its displayed source is that original; and a toggle on the layer while
  it is masked (it being selected) sets the displayed source to the original, not to an
  earlier masked image, and \<open>isMasked\<close> to false.
\<close>

theorem C2_original_kept_and_restored:
  assumes "source \<noteq> []" and "now \<noteq> []" and "now \<notin> set (map lid (layers st))"
  shows "\<exists>l. find (\<lambda>l. lid l = now)
               (layers (runMaskEvents (addLayer now iw ih source nm st) evs)) = Some l
           \<and> originalSrc l = Some source
           \<and> (isMasked l \<noteq> Some True \<longrightarrow> src l = source)
           \<and> (isMasked l = Some True
                \<and> selectedLayerId (runMaskEvents (addLayer now iw ih source nm st) evs) = Some now
              \<longrightarrow> (\<exists>l'. find (\<lambda>l. lid l = now)
                          (layers (handleRemoveBackground rb
                             (runMaskEvents (addLayer now iw ih source nm st) evs))) = Some l'
                       \<and> src l' = source \<and> isMasked l' = Some False
                       \<and> originalSrc l' = Some source))"
proof -
  let ?st = "runMaskEvents (addLayer now iw ih source nm st) evs"
  from addLayer_new_layer [OF assms(3), of iw ih source nm]
  obtain l0 where 0: "find (\<lambda>l. lid l = now) (layers (addLayer now iw ih source nm st)) = Some l0"
    and 1: "originalSrc l0 = Some source" and 2: "src l0 = source"
    by (elim exE conjE)
  from 2 have 3: "isMasked l0 \<noteq> Some True \<longrightarrow> src l0 = source" by simp
  from runMaskEvents_keeps_original [OF 0 1 assms(1) 3, of evs]
  obtain l where f: "find (\<lambda>l. lid l = now) (layers ?st) = Some l"
    and o: "originalSrc l = Some source" and m: "isMasked l \<noteq> Some True \<longrightarrow> src l = source"
    by (elim exE conjE)
  have r: "isMasked l = Some True \<and> selectedLayerId ?st = Some now
             \<longrightarrow> (\<exists>l'. find (\<lambda>l. lid l = now) (layers (handleRemoveBackground rb ?st)) = Some l'
                       \<and> src l' = source \<and> isMasked l' = Some False
                       \<and> originalSrc l' = Some source)"
  proof (intro impI, elim conjE)
    assume a: "isMasked l = Some True" and b: "selectedLayerId ?st = Some now"
    show "\<exists>l'. find (\<lambda>l. lid l = now) (layers (handleRemoveBackground rb ?st)) = Some l'
                       \<and> src l' = source \<and> isMasked l' = Some False
                       \<and> originalSrc l' = Some source"
      by (rule restore_step [OF f o assms(1) a b assms(2)])
  qed
  from f o m r show ?thesis by (intro exI [of _ l] conjI)
qed

lemma added_eval:
  "addLayer ''1'' 1000 800 ''data:a'' ''Image Layer'' emptyApp
     = emptyApp\<lparr>layers := [(sampleLayer ''1'' 1)\<lparr>lx := 350, ly := 250\<rparr>], selectedLayerId := Some ''1''\<rparr>"
  by (simp add: addLayer_def emptyApp_def sampleLayer_def INITIAL_LAYER_WIDTH_def
      initialViewport_def Let_def)

lemma toggle1_eval:
  "handleRemoveBackground maskService
     (emptyApp\<lparr>layers := [(sampleLayer ''1'' 1)\<lparr>lx := 350, ly := 250\<rparr>], selectedLayerId := Some ''1''\<rparr>)
   = emptyApp\<lparr>layers := [(sampleLayer ''1'' 1)\<lparr>lx := 350, ly := 250, src := ''masked:data:a'',
                              isMasked := Some True\<rparr>], selectedLayerId := Some ''1''\<rparr>"
  apply (simp add: handleRemoveBackground_def emptyApp_def truthyStr_def getSelectedLayer_def)
  apply (simp add: sampleLayer_def maskService_def orStr_def updateLayer_def)
  done

lemma toggle2_eval:
  "handleRemoveBackground maskService
     (emptyApp\<lparr>layers := [(sampleLayer ''1'' 1)\<lparr>lx := 350, ly := 250, src := ''masked:data:a'',
                              isMasked := Some True\<rparr>], selectedLayerId := Some ''1''\<rparr>)
   = emptyApp\<lparr>layers := [(sampleLayer ''1'' 1)\<lparr>lx := 350, ly := 250\<rparr>], selectedLayerId := Some ''1''\<rparr>"
  apply (simp add: handleRemoveBackground_def emptyApp_def truthyStr_def getSelectedLayer_def)
  apply (simp add: sampleLayer_def maskService_def orStr_def updateLayer_def)
  done

lemma toggledThrice_eval:
  "toggledThrice
   = emptyApp\<lparr>layers := [(sampleLayer ''1'' 1)\<lparr>lx := 350, ly := 250, src := ''masked:data:a'',
                              isMasked := Some True\<rparr>], selectedLayerId := Some ''1''\<rparr>"
  unfolding toggledThrice_def runMaskEvents_def added_eval
  by (simp only: foldl.simps maskStep_def maskEvent.case toggle1_eval toggle2_eval)

theorem C2_original_kept_and_restored_witness:
  "''data:a'' \<noteq> [] \<and> ''1'' \<noteq> [] \<and> ''1'' \<notin> set (map lid (layers emptyApp))
   \<and> map isMasked (layers toggledThrice) = [Some True]
   \<and> map src (layers toggledThrice) = [''masked:data:a'']
   \<and> (\<exists>l'. find (\<lambda>l. lid l = ''1'') (layers (handleRemoveBackground maskService toggledThrice)) = Some l'
          \<and> src l' = ''data:a'' \<and> isMasked l' = Some False \<and> originalSrc l' = Some ''data:a'')"
proof -
  have h1: "''data:a'' \<noteq> []" by simp
  have h2: "''1'' \<noteq> []" by simp
  have h3: "''1'' \<notin> set (map lid (layers emptyApp))" by (simp add: emptyApp_def)
  have e1: "map isMasked (layers toggledThrice) = [Some True]"
    unfolding toggledThrice_eval by simp
  have e2: "map src (layers toggledThrice) = [''masked:data:a'']"
    unfolding toggledThrice_eval by simp
  have e3: "selectedLayerId toggledThrice = Some ''1''"
    unfolding toggledThrice_eval by simp
  from C2_original_kept_and_restored [OF h1 h2 h3, of 1000 800 "''Image Layer''"
      "[Toggle maskService, Toggle maskService, Toggle maskService]" maskService]
  obtain l where f: "find (\<lambda>l. lid l = ''1'') (layers toggledThrice) = Some l"
    and r: "isMasked l = Some True \<and> selectedLayerId toggledThrice = Some ''1''
              \<longrightarrow> (\<exists>l'. find (\<lambda>l. lid l = ''1'')
                          (layers (handleRemoveBackground maskService toggledThrice)) = Some l'
                       \<and> src l' = ''data:a'' \<and> isMasked l' = Some False
                       \<and> originalSrc l' = Some ''data:a'')"
    unfolding toggledThrice_def by (elim exE conjE)
  from f have "isMasked l = Some True"
    unfolding toggledThrice_eval by (auto simp add: sampleLayer_def)
  with r e3 have "\<exists>l'. find (\<lambda>l. lid l = ''1'')
                          (layers (handleRemoveBackground maskService toggledThrice)) = Some l'
                       \<and> src l' = ''data:a'' \<and> isMasked l' = Some False
                       \<and> originalSrc l' = Some ''data:a''"
    by simp
  with h1 h2 h3 e1 e2 show ?thesis by (intro conjI)
qed

subsection \<open>Reordering: moveLayer\<close>

lemma findIndex_SomeD:
  "findIndex P xs = Some n \<Longrightarrow> n < length xs \<and> P (xs ! n) \<and> (\<forall>j<n. \<not> P (xs ! j))"
proof (induction xs arbitrary: n)
  case Nil
  then show ?case by simp
next
  case (Cons a xs)
  show ?case
  proof (cases "P a")
    case True
    with Cons.prems show ?thesis by simp
  next
    case False
    with Cons.prems obtain m where m: "findIndex P xs = Some m" and n: "n = Suc m"
      by auto
    from Cons.IH [OF m] False n show ?thesis
      by (auto simp add: nth_Cons split: nat.splits)
  qed
qed

lemma findIndex_at:
  "\<forall>x \<in> set xs. \<not> P x \<Longrightarrow> P a \<Longrightarrow> findIndex P (xs @ a # ys) = Some (length xs)"
  by (induction xs) simp_all

lemma sort_key_swap_adjacent:
  fixes f :: "'a \<Rightarrow> int"
  assumes s: "sorted (map f (xs @ a # b # ys))"
    and a': "f a' = f b" and b': "f b' = f a" and ne: "f a \<noteq> f b"
  shows "sort_key f (xs @ a' # b' # ys) = xs @ b' # a' # ys"
proof (rule properties_for_sort_key)
  show "mset (xs @ b' # a' # ys) = mset (xs @ a' # b' # ys)"
    by simp
  show "sorted (map f (xs @ b' # a' # ys))"
    using s a' b' by simp
  fix k
  from a' b' ne have "f a' \<noteq> f b'" by simp
  then show "filter (\<lambda>x. f k = f x) (xs @ b' # a' # ys) = filter (\<lambda>x. f k = f x) (xs @ a' # b' # ys)"
    by auto
qed

lemma moveLayer_Up_decomp:
  assumes S: "sort_key zIndex prev = xs @ a # b # ys"
    and miss: "\<forall>l \<in> set xs. lid l \<noteq> i" and hit: "lid a = i"
  shows "moveLayer i Up prev =
           (if zIndex a = zIndex b then xs @ a # b # ys
            else xs @ b\<lparr>zIndex := zIndex a\<rparr> # a\<lparr>zIndex := zIndex b\<rparr> # ys)"
proof -
  have idx: "findIndex (\<lambda>l. lid l = i) (xs @ a # b # ys) = Some (length xs)"
    using miss hit by (simp add: findIndex_at)
  have srt: "sorted (map zIndex (xs @ a # b # ys))"
    using sorted_sort_key [of zIndex prev] S by simp
  have m: "moveLayer i Up prev = sort_key zIndex (xs @ a\<lparr>zIndex := zIndex b\<rparr> # b\<lparr>zIndex := zIndex a\<rparr> # ys)"
    by (simp add: moveLayer_def S idx Let_def nth_append list_update_append)
  show ?thesis
  proof (cases "zIndex a = zIndex b")
    case True
    then have "xs @ a\<lparr>zIndex := zIndex b\<rparr> # b\<lparr>zIndex := zIndex a\<rparr> # ys = xs @ a # b # ys"
      by simp
    with m srt True show ?thesis
      by (simp add: sort_key_id_if_sorted)
  next
    case False
    have "sort_key zIndex (xs @ a\<lparr>zIndex := zIndex b\<rparr> # b\<lparr>zIndex := zIndex a\<rparr> # ys)
            = xs @ b\<lparr>zIndex := zIndex a\<rparr> # a\<lparr>zIndex := zIndex b\<rparr> # ys"
      by (rule sort_key_swap_adjacent [OF srt]) (simp_all add: False)
    with m False show ?thesis by simp
  qed
qed

lemma moveLayer_Down_decomp:
  assumes S: "sort_key zIndex prev = xs @ a # b # ys"
    and miss: "\<forall>l \<in> set xs. lid l \<noteq> i" and missa: "lid a \<noteq> i" and hit: "lid b = i"
  shows "moveLayer i Down prev =
           (if zIndex a = zIndex b then xs @ a # b # ys
            else xs @ b\<lparr>zIndex := zIndex a\<rparr> # a\<lparr>zIndex := zIndex b\<rparr> # ys)"
proof -
  have "findIndex (\<lambda>l. lid l = i) ((xs @ [a]) @ b # ys) = Some (length (xs @ [a]))"
    using miss missa hit by (intro findIndex_at) auto
  then have idx: "findIndex (\<lambda>l. lid l = i) (xs @ a # b # ys) = Some (Suc (length xs))"
    by simp
  have srt: "sorted (map zIndex (xs @ a # b # ys))"
    using sorted_sort_key [of zIndex prev] S by simp
  have m: "moveLayer i Down prev = sort_key zIndex (xs @ a\<lparr>zIndex := zIndex b\<rparr> # b\<lparr>zIndex := zIndex a\<rparr> # ys)"
    by (simp add: moveLayer_def S idx Let_def nth_append list_update_append)
  show ?thesis
  proof (cases "zIndex a = zIndex b")
    case True
    then have "xs @ a\<lparr>zIndex := zIndex b\<rparr> # b\<lparr>zIndex := zIndex a\<rparr> # ys = xs @ a # b # ys"
      by simp
    with m srt True show ?thesis
      by (simp add: sort_key_id_if_sorted)
  next
    case False
    have "sort_key zIndex (xs @ a\<lparr>zIndex := zIndex b\<rparr> # b\<lparr>zIndex := zIndex a\<rparr> # ys)
            = xs @ b\<lparr>zIndex := zIndex a\<rparr> # a\<lparr>zIndex := zIndex b\<rparr> # ys"
      by (rule sort_key_swap_adjacent [OF srt]) (simp_all add: False)
    with m False show ?thesis by simp
  qed
qed

lemma decomp_pair:
  "Suc n < length S \<Longrightarrow> S = take n S @ S ! n # S ! Suc n # drop (Suc (Suc n)) S"
  by (metis Cons_nth_drop_Suc Suc_lessD append_take_drop_id)

lemma take_miss:
  assumes "\<forall>j<n. \<not> P (S ! j)" and "n \<le> length S"
  shows "\<forall>x \<in> set (take n S). \<not> P x"
proof
  fix x assume "x \<in> set (take n S)"
  then obtain j where "j < length (take n S)" and "take n S ! j = x"
    by (auto simp add: in_set_conv_nth)
  with assms show "\<not> P x" by auto
qed

lemma moveLayer_noop_top:
  "findIndex (\<lambda>l. lid l = i) (sort_key zIndex prev) = Some n \<Longrightarrow> n = length prev - 1
     \<Longrightarrow> moveLayer i Up prev = prev"
  by (simp add: moveLayer_def)

lemma moveLayer_noop_bottom:
  "findIndex (\<lambda>l. lid l = i) (sort_key zIndex prev) = Some 0 \<Longrightarrow> moveLayer i Down prev = prev"
  by (simp add: moveLayer_def)

lemma moveLayer_Up_index:
  assumes idx: "findIndex (\<lambda>l. lid l = i) (sort_key zIndex prev) = Some n"
    and n: "n + 1 < length prev"
  shows "moveLayer i Up prev =
           (let S = sort_key zIndex prev; a = S ! n; b = S ! (n + 1)
            in if zIndex a = zIndex b then S
               else take n S @ [b\<lparr>zIndex := zIndex a\<rparr>, a\<lparr>zIndex := zIndex b\<rparr>] @ drop (n + 2) S)"
proof -
  let ?S = "sort_key zIndex prev"
  from n have n': "Suc n < length ?S" by simp
  note d = decomp_pair [OF n']
  from findIndex_SomeD [OF idx] have hit: "lid (?S ! n) = i" and "\<forall>j<n. lid (?S ! j) \<noteq> i"
    by simp_all
  then have miss: "\<forall>l \<in> set (take n ?S). lid l \<noteq> i"
    using n' by (intro take_miss) simp_all
  from moveLayer_Up_decomp [OF d miss hit] d show ?thesis
    by (simp add: Let_def)
qed

lemma moveLayer_Down_index:
  assumes idx: "findIndex (\<lambda>l. lid l = i) (sort_key zIndex prev) = Some n"
    and n: "0 < n"
  shows "moveLayer i Down prev =
           (let S = sort_key zIndex prev; a = S ! (n - 1); b = S ! n
            in if zIndex a = zIndex b then S
               else take (n - 1) S @ [b\<lparr>zIndex := zIndex a\<rparr>, a\<lparr>zIndex := zIndex b\<rparr>] @ drop (n + 1) S)"
proof -
  let ?S = "sort_key zIndex prev"
  from n obtain m where m: "n = Suc m" by (cases n) simp_all
  from findIndex_SomeD [OF idx] have len: "n < length ?S" and hit: "lid (?S ! n) = i"
    and before: "\<forall>j<n. lid (?S ! j) \<noteq> i"
    by simp_all
  from len m have m': "Suc m < length ?S" by simp
  note d = decomp_pair [OF m']
  from before m have missa: "lid (?S ! m) \<noteq> i" by simp
  from before m have "\<forall>j<m. lid (?S ! j) \<noteq> i" by simp
  then have miss: "\<forall>l \<in> set (take m ?S). lid l \<noteq> i"
    using m' by (intro take_miss) simp_all
  from hit m have hit': "lid (?S ! Suc m) = i" by simp
  from moveLayer_Down_decomp [OF d miss missa hit'] d m show ?thesis
    by (simp add: Let_def)
qed

lemma distinct_ids_sorted:
  assumes "distinct (map lid prev)"
  shows "distinct (map lid (sort_key zIndex prev))"
proof -
  have "mset (map lid (sort_key zIndex prev)) = mset (map lid prev)"
    by simp
  from mset_eq_imp_distinct_iff [OF this] assms show ?thesis by simp
qed

lemma sorted_swapped_keys:
  assumes "sorted (map zIndex (xs @ a # b # ys))"
  shows "sort_key zIndex (xs @ b\<lparr>zIndex := zIndex a\<rparr> # a\<lparr>zIndex := zIndex b\<rparr> # ys)
           = xs @ b\<lparr>zIndex := zIndex a\<rparr> # a\<lparr>zIndex := zIndex b\<rparr> # ys"
  using assms by (intro sort_key_id_if_sorted) simp

lemma up_down_decomp:
  assumes S: "sort_key zIndex prev = xs @ a # b # ys"
    and miss: "\<forall>l \<in> set xs. lid l \<noteq> i" and hit: "lid a = i" and other: "lid b \<noteq> i"
    and ne: "zIndex a \<noteq> zIndex b"
  shows "moveLayer i Down (moveLayer i Up prev) = xs @ a # b # ys"
proof -
  let ?a = "a\<lparr>zIndex := zIndex b\<rparr>" and ?b = "b\<lparr>zIndex := zIndex a\<rparr>"
  have srt: "sorted (map zIndex (xs @ a # b # ys))"
    using sorted_sort_key [of zIndex prev] S by simp
  have up: "moveLayer i Up prev = xs @ ?b # ?a # ys"
    using moveLayer_Up_decomp [OF S miss hit] ne by simp
  have S': "sort_key zIndex (xs @ ?b # ?a # ys) = xs @ ?b # ?a # ys"
    by (rule sorted_swapped_keys [OF srt])
  have "moveLayer i Down (xs @ ?b # ?a # ys) =
          (if zIndex ?b = zIndex ?a then xs @ ?b # ?a # ys
           else xs @ ?a\<lparr>zIndex := zIndex ?b\<rparr> # ?b\<lparr>zIndex := zIndex ?a\<rparr> # ys)"
    by (rule moveLayer_Down_decomp [OF S' miss]) (simp_all add: hit other)
  with ne up show ?thesis by simp
qed

lemma down_up_decomp:
  assumes S: "sort_key zIndex prev = xs @ a # b # ys"
    and miss: "\<forall>l \<in> set xs. lid l \<noteq> i" and missa: "lid a \<noteq> i" and hit: "lid b = i"
    and ne: "zIndex a \<noteq> zIndex b"
  shows "moveLayer i Up (moveLayer i Down prev) = xs @ a # b # ys"
proof -
  let ?a = "a\<lparr>zIndex := zIndex b\<rparr>" and ?b = "b\<lparr>zIndex := zIndex a\<rparr>"
  have srt: "sorted (map zIndex (xs @ a # b # ys))"
    using sorted_sort_key [of zIndex prev] S by simp
  have down: "moveLayer i Down prev = xs @ ?b # ?a # ys"
    using moveLayer_Down_decomp [OF S miss missa hit] ne by simp
  have S': "sort_key zIndex (xs @ ?b # ?a # ys) = xs @ ?b # ?a # ys"
    by (rule sorted_swapped_keys [OF srt])
  have "moveLayer i Up (xs @ ?b # ?a # ys) =
          (if zIndex ?b = zIndex ?a then xs @ ?b # ?a # ys
           else xs @ ?a\<lparr>zIndex := zIndex ?b\<rparr> # ?b\<lparr>zIndex := zIndex ?a\<rparr> # ys)"
    by (rule moveLayer_Up_decomp [OF S' miss]) (simp add: hit)
  with ne down show ?thesis by simp
qed

lemma moveLayer_up_down_index:
  assumes idx: "findIndex (\<lambda>l. lid l = i) (sort_key zIndex prev) = Some n"
    and d: "distinct (map lid prev)" and n: "n + 1 < length prev"
    and ne: "zIndex (sort_key zIndex prev ! n) \<noteq> zIndex (sort_key zIndex prev ! (n + 1))"
  shows "moveLayer i Down (moveLayer i Up prev) = sort_key zIndex prev"
proof -
  let ?S = "sort_key zIndex prev"
  from n have n': "Suc n < length ?S" by simp
  note dc = decomp_pair [OF n']
  from findIndex_SomeD [OF idx] have hit: "lid (?S ! n) = i" and "\<forall>j<n. lid (?S ! j) \<noteq> i"
    by simp_all
  then have miss: "\<forall>l \<in> set (take n ?S). lid l \<noteq> i"
    using n' by (intro take_miss) simp_all
  from distinct_ids_sorted [OF d] n' have "lid (?S ! Suc n) \<noteq> lid (?S ! n)"
    by (simp add: distinct_conv_nth)
  with hit have other: "lid (?S ! Suc n) \<noteq> i" by simp
  from ne have ne': "zIndex (?S ! n) \<noteq> zIndex (?S ! Suc n)" by simp
  from up_down_decomp [OF dc miss hit other ne'] dc show ?thesis by simp
qed

lemma moveLayer_down_up_index:
  assumes idx: "findIndex (\<lambda>l. lid l = i) (sort_key zIndex prev) = Some n"
    and n: "0 < n"
    and ne: "zIndex (sort_key zIndex prev ! (n - 1)) \<noteq> zIndex (sort_key zIndex prev ! n)"
  shows "moveLayer i Up (moveLayer i Down prev) = sort_key zIndex prev"
proof -
  let ?S = "sort_key zIndex prev"
  from n obtain m where m: "n = Suc m" by (cases n) simp_all
  from findIndex_SomeD [OF idx] have len: "n < length ?S" and hit: "lid (?S ! n) = i"
    and before: "\<forall>j<n. lid (?S ! j) \<noteq> i"
    by simp_all
  from len m have m': "Suc m < length ?S" by simp
  note dc = decomp_pair [OF m']
  from before m have missa: "lid (?S ! m) \<noteq> i" by simp
  from before m have "\<forall>j<m. lid (?S ! j) \<noteq> i" by simp
  then have miss: "\<forall>l \<in> set (take m ?S). lid l \<noteq> i"
    using m' by (intro take_miss) simp_all
  from hit m have hit': "lid (?S ! Suc m) = i" by simp
  from ne m have ne': "zIndex (?S ! m) \<noteq> zIndex (?S ! Suc m)" by simp
  from down_up_decomp [OF dc miss missa hit' ne'] dc show ?thesis by simp
qed

lemma sampleLayer_sel [simp]:
  "lid (sampleLayer i z) = i" "zIndex (sampleLayer i z) = z"
  "(sampleLayer i z)\<lparr>zIndex := z'\<rparr> = sampleLayer i z'"
  by (simp_all add: sampleLayer_def)

lemma two_up: "moveLayer ''2'' Up twoLayers = twoLayers"
  by (simp add: moveLayer_def twoLayers_def)

lemma two_down: "moveLayer ''2'' Down twoLayers = [sampleLayer ''2'' 1, sampleLayer ''1'' 2]"
  by (simp add: moveLayer_def twoLayers_def)

lemma tied_up: "moveLayer ''2'' Up tiedLayers = tiedLayers"
  by (simp add: moveLayer_def tiedLayers_def)

lemma tied_down: "moveLayer ''2'' Down tiedLayers = [sampleLayer ''2'' 1, sampleLayer ''1'' 2, sampleLayer ''3'' 2]"
  by (simp add: moveLayer_def tiedLayers_def)

text \<open>
  Claim C3, as stated, at two stores. The layer on top: "up" is a no-op and "down" then
  moves it below its neighbour, so the pair does not restore the order. A layer whose
  upper neighbour has the same \<open>zIndex\<close>: "up" swaps equal values, "down" then swaps it
  with its lower neighbour.
\<close>

theorem C3_up_down_counterexample:
  "moveLayer ''2'' Down (moveLayer ''2'' Up twoLayers) = [sampleLayer ''2'' 1, sampleLayer ''1'' 2]
   \<and> moveLayer ''2'' Down (moveLayer ''2'' Up twoLayers) \<noteq> twoLayers
   \<and> moveLayer ''2'' Down (moveLayer ''2'' Up tiedLayers)
       = [sampleLayer ''2'' 1, sampleLayer ''1'' 2, sampleLayer ''3'' 2]
   \<and> moveLayer ''2'' Down (moveLayer ''2'' Up tiedLayers) \<noteq> tiedLayers"
  unfolding two_up tied_up two_down tied_down
  by (simp add: twoLayers_def tiedLayers_def sampleLayer_def)

text \<open>
  Claim C3, amended. Let the layer \<open>i\<close> be at position \<open>n\<close> of the store sorted by
  \<open>zIndex\<close>. One call of \<^verbatim>\<open>moveLayer\<close> returns the store unchanged when the layer is at
  the extreme of the direction; otherwise it exchanges the \<open>zIndex\<close> of the layer with
  that of its immediate neighbour in sorted order and returns the store sorted: the two
  layers change places (when the two values are equal, nothing changes). "Up" then
  "down" gives back the sorted store, every layer with its \<open>zIndex\<close>, when ids are unique,
  the layer is not on top and its \<open>zIndex\<close> differs from that of the neighbour above;
  "down" then "up" does when the layer is not at the bottom and its \<open>zIndex\<close> differs
  from that of the neighbour below.
\<close>

theorem C3_moveLayer_adjacent_swap:
  assumes "findIndex (\<lambda>l. lid l = i) (sort_key zIndex prev) = Some n"
  shows "(n = length prev - 1 \<longrightarrow> moveLayer i Up prev = prev)
     \<and> (n = 0 \<longrightarrow> moveLayer i Down prev = prev)
     \<and> (n + 1 < length prev \<longrightarrow>
          moveLayer i Up prev =
            (let S = sort_key zIndex prev; a = S ! n; b = S ! (n + 1)
             in if zIndex a = zIndex b then S
                else take n S @ [b\<lparr>zIndex := zIndex a\<rparr>, a\<lparr>zIndex := zIndex b\<rparr>] @ drop (n + 2) S))
     \<and> (0 < n \<longrightarrow>
          moveLayer i Down prev =
            (let S = sort_key zIndex prev; a = S ! (n - 1); b = S ! n
             in if zIndex a = zIndex b then S
                else take (n - 1) S @ [b\<lparr>zIndex := zIndex a\<rparr>, a\<lparr>zIndex := zIndex b\<rparr>] @ drop (n + 1) S))
     \<and> (distinct (map lid prev) \<and> n + 1 < length prev
          \<and> zIndex (sort_key zIndex prev ! n) \<noteq> zIndex (sort_key zIndex prev ! (n + 1)) \<longrightarrow>
          moveLayer i Down (moveLayer i Up prev) = sort_key zIndex prev)
     \<and> (0 < n \<and> zIndex (sort_key zIndex prev ! (n - 1)) \<noteq> zIndex (sort_key zIndex prev ! n) \<longrightarrow>
          moveLayer i Up (moveLayer i Down prev) = sort_key zIndex prev)"
proof (intro conjI impI)
  assume "n = length prev - 1"
  with assms show "moveLayer i Up prev = prev" by (rule moveLayer_noop_top)
next
  assume "n = 0"
  with assms show "moveLayer i Down prev = prev" by (simp add: moveLayer_noop_bottom)
next
  assume "n + 1 < length prev"
  with assms show "moveLayer i Up prev =
            (let S = sort_key zIndex prev; a = S ! n; b = S ! (n + 1)
             in if zIndex a = zIndex b then S
                else take n S @ [b\<lparr>zIndex := zIndex a\<rparr>, a\<lparr>zIndex := zIndex b\<rparr>] @ drop (n + 2) S)"
    by (rule moveLayer_Up_index)
next
  assume "0 < n"
  with assms show "moveLayer i Down prev =
            (let S = sort_key zIndex prev; a = S ! (n - 1); b = S ! n
             in if zIndex a = zIndex b then S
                else take (n - 1) S @ [b\<lparr>zIndex := zIndex a\<rparr>, a\<lparr>zIndex := zIndex b\<rparr>] @ drop (n + 1) S)"
    by (rule moveLayer_Down_index)
next
  assume "distinct (map lid prev) \<and> n + 1 < length prev
          \<and> zIndex (sort_key zIndex prev ! n) \<noteq> zIndex (sort_key zIndex prev ! (n + 1))"
  then have d: "distinct (map lid prev)" and n: "n + 1 < length prev"
    and ne: "zIndex (sort_key zIndex prev ! n) \<noteq> zIndex (sort_key zIndex prev ! (n + 1))"
    by simp_all
  show "moveLayer i Down (moveLayer i Up prev) = sort_key zIndex prev"
    by (rule moveLayer_up_down_index [OF assms d n ne])
next
  assume "0 < n \<and> zIndex (sort_key zIndex prev ! (n - 1)) \<noteq> zIndex (sort_key zIndex prev ! n)"
  then have n: "0 < n"
    and ne: "zIndex (sort_key zIndex prev ! (n - 1)) \<noteq> zIndex (sort_key zIndex prev ! n)"
    by simp_all
  show "moveLayer i Up (moveLayer i Down prev) = sort_key zIndex prev"
    by (rule moveLayer_down_up_index [OF assms n ne])
qed

theorem C3_moveLayer_adjacent_swap_witness:
  "moveLayer ''2'' Up threeLayers = [sampleLayer ''1'' 1, sampleLayer ''3'' 2, sampleLayer ''2'' 3]
   \<and> moveLayer ''2'' Down threeLayers = [sampleLayer ''2'' 1, sampleLayer ''1'' 2, sampleLayer ''3'' 3]
   \<and> moveLayer ''2'' Down (moveLayer ''2'' Up threeLayers) = threeLayers
   \<and> moveLayer ''2'' Up (moveLayer ''2'' Down threeLayers) = threeLayers
   \<and> moveLayer ''3'' Up threeLayers = threeLayers
   \<and> moveLayer ''1'' Down threeLayers = threeLayers"
proof -
  have s: "sort_key zIndex threeLayers = threeLayers"
    by (simp add: threeLayers_def)
  have i1: "findIndex (\<lambda>l. lid l = ''1'') (sort_key zIndex threeLayers) = Some 0"
    unfolding s by (simp add: threeLayers_def)
  have i2: "findIndex (\<lambda>l. lid l = ''2'') (sort_key zIndex threeLayers) = Some 1"
    unfolding s by (simp add: threeLayers_def)
  have i3: "findIndex (\<lambda>l. lid l = ''3'') (sort_key zIndex threeLayers) = Some 2"
    unfolding s by (simp add: threeLayers_def)
  have d: "distinct (map lid threeLayers)"
    by (simp add: threeLayers_def)
  note t2 = C3_moveLayer_adjacent_swap [OF i2]
  note t3 = C3_moveLayer_adjacent_swap [OF i3]
  note t1 = C3_moveLayer_adjacent_swap [OF i1]
  from t2 have a: "moveLayer ''2'' Up threeLayers
      = [sampleLayer ''1'' 1, sampleLayer ''3'' 2, sampleLayer ''2'' 3]"
    unfolding s by (simp add: threeLayers_def Let_def)
  from t2 have b: "moveLayer ''2'' Down threeLayers
      = [sampleLayer ''2'' 1, sampleLayer ''1'' 2, sampleLayer ''3'' 3]"
    unfolding s by (simp add: threeLayers_def Let_def)
  have p5: "distinct (map lid threeLayers) \<and> 1 + 1 < length threeLayers
          \<and> zIndex (sort_key zIndex threeLayers ! 1) \<noteq> zIndex (sort_key zIndex threeLayers ! (1 + 1))"
    unfolding s by (simp add: threeLayers_def)
  have p6: "(0::nat) < 1 \<and> zIndex (sort_key zIndex threeLayers ! (1 - 1)) \<noteq> zIndex (sort_key zIndex threeLayers ! 1)"
    unfolding s by (simp add: threeLayers_def)
  from t2 have c0: "distinct (map lid threeLayers) \<and> 1 + 1 < length threeLayers
          \<and> zIndex (sort_key zIndex threeLayers ! 1) \<noteq> zIndex (sort_key zIndex threeLayers ! (1 + 1))
          \<longrightarrow> moveLayer ''2'' Down (moveLayer ''2'' Up threeLayers) = sort_key zIndex threeLayers"
    by blast
  from mp [OF c0 p5] have c: "moveLayer ''2'' Down (moveLayer ''2'' Up threeLayers) = threeLayers"
    by (simp only: s)
  from t2 have e0: "(0::nat) < 1 \<and> zIndex (sort_key zIndex threeLayers ! (1 - 1)) \<noteq> zIndex (sort_key zIndex threeLayers ! 1)
          \<longrightarrow> moveLayer ''2'' Up (moveLayer ''2'' Down threeLayers) = sort_key zIndex threeLayers"
    by blast
  from mp [OF e0 p6] have e: "moveLayer ''2'' Up (moveLayer ''2'' Down threeLayers) = threeLayers"
    by (simp only: s)
  from t3 have f: "moveLayer ''3'' Up threeLayers = threeLayers"
    by (simp add: threeLayers_def)
  from t1 have g: "moveLayer ''1'' Down threeLayers = threeLayers"
    by simp
  from a b c e f g show ?thesis by (intro conjI)
qed

subsection \<open>Mask compositor: the levels curve\<close>

lemma expo_numeral:
  "expo (numeral k) q =
     (if q < 1 then expo (pred_numeral k) (q * 2) - 1
      else if 2 \<le> q then expo (pred_numeral k) (q / 2) + 1
      else 0)"
  by (simp add: numeral_eq_Suc)

lemmas double_eval = levelsAlpha_def roundDouble_def roundEven_def pow2_def Let_def expo_numeral

lemma levels_mid_a: "\<forall>m \<in> set [51..<100]. \<lfloor>levelsAlpha m\<rfloor> = (int m - 50) * 255 div 150"
  by (simp add: double_eval upt_rec_numeral)

lemma levels_mid_b: "\<forall>m \<in> set [100..<150]. \<lfloor>levelsAlpha m\<rfloor> = (int m - 50) * 255 div 150"
  by (simp add: double_eval upt_rec_numeral)

lemma levels_mid_c: "\<forall>m \<in> set [150..<200]. \<lfloor>levelsAlpha m\<rfloor> = (int m - 50) * 255 div 150"
  by (simp add: double_eval upt_rec_numeral)

lemma levels_mid:
  assumes "50 < m" and "m < 200"
  shows "\<lfloor>levelsAlpha m\<rfloor> = (int m - 50) * 255 div 150"
proof -
  from assms have "m \<in> set [51..<100] \<or> m \<in> set [100..<150] \<or> m \<in> set [150..<200]"
    unfolding set_upt atLeastLessThan_iff by linarith
  with levels_mid_a levels_mid_b levels_mid_c show ?thesis by blast
qed

lemma levels_low: "m \<le> 50 \<Longrightarrow> levelsAlpha m = 0"
  by (simp add: levelsAlpha_def)

lemma levels_high: "200 \<le> m \<Longrightarrow> levelsAlpha m = 255"
  by (simp add: levelsAlpha_def)

lemma exact_mid:
  "\<lfloor>(real m - 50) / (200 - 50) * 255\<rfloor> = (int m - 50) * 255 div 150"
proof -
  have "(real m - 50) / (200 - 50) * 255 = real_of_int ((int m - 50) * 255) / real_of_int 150"
    by simp
  then show ?thesis
    by (simp only: floor_divide_of_int_eq)
qed

lemma alphaByte_levels:
  "alphaByte (Some m) =
     (if m \<le> 50 then 0 else if 200 \<le> m then 255
      else nat \<lfloor>(real m - 50) / (200 - 50) * 255\<rfloor>)"
proof -
  consider "m \<le> 50" | "200 \<le> m" | "50 < m" "m < 200" by linarith
  then show ?thesis
  proof cases
    case 1
    then show ?thesis by (simp add: alphaByte_def toUint8Clamped_def levels_low)
  next
    case 2
    then show ?thesis by (simp add: alphaByte_def toUint8Clamped_def levels_high)
  next
    case 3
    let ?v = "(int m - 50) * 255 div 150"
    from 3 have lo: "0 \<le> ?v" by simp
    from 3 have "(int m - 50) * 255 < 256 * 150" by simp
    then have hi: "?v \<le> 255" by simp
    from 3 lo hi show ?thesis
      by (simp only: alphaByte_def option.case levels_mid [OF 3] exact_mid toUint8Clamped_def)
        simp
  qed
qed

lemma length_applyMaskLoop: "length (applyMaskLoop i mData data) = length data"
proof (induction i mData data rule: applyMaskLoop.induct)
  case (1 i mData data)
  show ?case
  proof (cases "i < length data")
    case True
    with "1.IH" show ?thesis by (subst applyMaskLoop.simps) simp
  next
    case False
    then show ?thesis by (subst applyMaskLoop.simps) simp
  qed
qed

lemma nth_applyMaskLoop:
  assumes "j < length data" and "i mod 4 = 0"
  shows "applyMaskLoop i mData data ! j =
           (if i + 3 \<le> j \<and> j mod 4 = 3
            then alphaByte (if j - 3 < length mData then Some (mData ! (j - 3)) else None)
            else data ! j)"
  using assms
proof (induction i mData data rule: applyMaskLoop.induct)
  case (1 i mData data)
  show ?case
  proof (cases "i < length data")
    case False
    with "1.prems" have "\<not> (i + 3 \<le> j)" by simp
    with False show ?thesis by (subst applyMaskLoop.simps) simp
  next
    case True
    let ?d = "data[i + 3 := alphaByte (if i < length mData then Some (mData ! i) else None)]"
    from "1.prems" have j: "j < length ?d" and m: "(i + 4) mod 4 = 0" by simp_all
    have step: "applyMaskLoop i mData data ! j = applyMaskLoop (i + 4) mData ?d ! j"
      using True by (subst applyMaskLoop.simps) simp
    note ih = "1.IH" [OF True j m]
    show ?thesis
    proof (cases "j = i + 3")
      case True
      with "1.prems" have "\<not> (i + 4 + 3 \<le> j)" and "j mod 4 = 3" and "j - 3 = i"
        by presburger+
      with step ih True "1.prems"(1) show ?thesis by simp
    next
      case False
      have "(i + 3 \<le> j \<and> j mod 4 = 3) = (i + 4 + 3 \<le> j \<and> j mod 4 = 3)"
        using False "1.prems"(2) by presburger
      with step ih False show ?thesis by simp
    qed
  qed
qed

text \<open>
  Claim C1. For every pixel \<open>p\<close> of the buffer, with the mask buffer of the same size,
  the loop writes into the alpha byte the levels curve of the red byte \<open>m\<close> of the mask
  pixel: 0 if \<open>m \<le> 50\<close>, 255 if \<open>m \<ge> 200\<close>, otherwise the floor of
  \<open>(m - 50) / (200 - 50) * 255\<close> in exact arithmetic (the two roundings of the double
  computation never change the floor); the R, G, B bytes and the length of the buffer
  are unchanged. Mask value 0 gives alpha 0, 255 gives 255, 125 gives 127.
\<close>

theorem C1_mask_levels_alpha:
  assumes "length mData = length data" and "4 * p + 3 < length data"
  shows "length (applyMask mData data) = length data
     \<and> applyMask mData data ! (4 * p + 3) =
         (let m = mData ! (4 * p)
          in if m \<le> 50 then 0 else if 200 \<le> m then 255
             else nat \<lfloor>(real m - 50) / (200 - 50) * 255\<rfloor>)
     \<and> applyMask mData data ! (4 * p) = data ! (4 * p)
     \<and> applyMask mData data ! (4 * p + 1) = data ! (4 * p + 1)
     \<and> applyMask mData data ! (4 * p + 2) = data ! (4 * p + 2)
     \<and> alphaByte (Some 0) = 0 \<and> alphaByte (Some 255) = 255 \<and> alphaByte (Some 125) = 127"
proof -
  have z: "(0::nat) mod 4 = 0" by simp
  have len: "length (applyMask mData data) = length data"
    by (simp add: applyMask_def length_applyMaskLoop)
  from assms(2) have j3: "4 * p + 3 < length data" and j0: "4 * p < length data"
    and j1: "4 * p + 1 < length data" and j2: "4 * p + 2 < length data"
    by simp_all
  have m3: "(4 * p + 3) mod 4 = 3" and m0: "(4 * p) mod 4 \<noteq> 3"
    and m1: "(4 * p + 1) mod 4 \<noteq> 3" and m2: "(4 * p + 2) mod 4 \<noteq> 3"
    by presburger+
  from assms j0 have inm: "4 * p < length mData" by simp
  have a: "applyMask mData data ! (4 * p + 3) = alphaByte (Some (mData ! (4 * p)))"
    unfolding applyMask_def nth_applyMaskLoop [OF j3 z] using m3 inm by simp
  have r: "applyMask mData data ! (4 * p) = data ! (4 * p)"
    unfolding applyMask_def nth_applyMaskLoop [OF j0 z] using m0 by simp
  have g: "applyMask mData data ! (4 * p + 1) = data ! (4 * p + 1)"
    unfolding applyMask_def nth_applyMaskLoop [OF j1 z] using m1 by simp
  have b: "applyMask mData data ! (4 * p + 2) = data ! (4 * p + 2)"
    unfolding applyMask_def nth_applyMaskLoop [OF j2 z] using m2 by simp
  have a': "applyMask mData data ! (4 * p + 3) =
         (let m = mData ! (4 * p)
          in if m \<le> 50 then 0 else if 200 \<le> m then 255
             else nat \<lfloor>(real m - 50) / (200 - 50) * 255\<rfloor>)"
    unfolding a alphaByte_levels Let_def ..
  have v0: "alphaByte (Some 0) = 0" by (simp add: alphaByte_levels)
  have v255: "alphaByte (Some 255) = 255" by (simp add: alphaByte_levels)
  have v125: "alphaByte (Some 125) = 127" by (simp add: alphaByte_levels)
  from len a' r g b v0 v255 v125 show ?thesis by (intro conjI)
qed

theorem C1_mask_levels_alpha_witness:
  "length sampleMask = length samplePixels \<and> 4 * 0 + 3 < length samplePixels
   \<and> 4 * 1 + 3 < length samplePixels
   \<and> applyMask sampleMask samplePixels ! 3 = 127
   \<and> applyMask sampleMask samplePixels ! 7 = 255
   \<and> applyMask sampleMask samplePixels ! 0 = 10
   \<and> applyMask sampleMask samplePixels ! 5 = 50"
proof -
  have h1: "length sampleMask = length samplePixels"
    by (simp add: sampleMask_def samplePixels_def)
  have h2: "4 * 0 + 3 < length samplePixels" by (simp add: samplePixels_def)
  have h3: "4 * 1 + 3 < length samplePixels" by (simp add: samplePixels_def)
  note t0 = C1_mask_levels_alpha [OF h1 h2]
  note t1 = C1_mask_levels_alpha [OF h1 h3]
  from t0 have a: "applyMask sampleMask samplePixels ! 3 = 127"
    by (simp add: sampleMask_def)
  from t0 have b: "applyMask sampleMask samplePixels ! 0 = 10"
    by (simp add: samplePixels_def)
  from t1 have c: "applyMask sampleMask samplePixels ! 7 = 255"
    by (simp add: sampleMask_def)
  from t1 have d: "applyMask sampleMask samplePixels ! 5 = 50"
    by (simp add: samplePixels_def)
  from h1 h2 h3 a b c d show ?thesis by (intro conjI)
qed


subsection \<open>Export: canvas size and origin\<close>

lemma addCornerF_exact: "addCornerF (\<lambda>r. r) cos sin l b p = addCorner l b p"
  by (simp add: addCornerF_def transformCornerF_def addCorner_def Let_def)

lemma exportBoundsF_exact: "exportBoundsF (\<lambda>r. r) cos sin ls = exportBounds ls"
proof -
  have c: "cornersF (\<lambda>r. r) l = corners l" for l
    by (simp add: cornersF_def corners_def)
  have "addLayerBoundsF (\<lambda>r. r) cos sin = addLayerBounds"
    by (simp add: fun_eq_iff addLayerBoundsF_def addLayerBounds_def c addCornerF_exact [abs_def])
  then show ?thesis
    by (simp add: exportBoundsF_def exportBounds_def)
qed

lemma addCornerF_extend:
  "addCornerF fl mc ms l b p = extendBounds b (transformCornerF fl mc ms l p)"
  by (cases b; cases "minX b"; cases "minY b"; cases "maxX b"; cases "maxY b")
    (auto simp add: addCornerF_def extendBounds_def belowMin_def aboveMax_def
      Let_def min_def max_def)

lemma addLayerBoundsF_extend:
  "addLayerBoundsF fl mc ms b l
     = foldl extendBounds b (map (transformCornerF fl mc ms l) (cornersF fl l))"
  by (simp add: addLayerBoundsF_def cornersF_def addCornerF_extend)

lemma foldl_addLayerBoundsF_extend:
  "foldl (addLayerBoundsF fl mc ms) b ls = foldl extendBounds b (transformedCornersF fl mc ms ls)"
  by (induction ls arbitrary: b) (simp_all add: transformedCornersF_def addLayerBoundsF_extend)

lemma foldl_min_least:
  fixes a :: real
  shows "foldl min a xs \<in> insert a (set xs) \<and> (\<forall>y \<in> insert a (set xs). foldl min a xs \<le> y)"
proof (induction xs arbitrary: a)
  case Nil
  show ?case by simp
next
  case (Cons x xs)
  from Cons.IH [of "min a x"] show ?case
    by (auto simp add: min_def split: if_splits)
qed

lemma foldl_max_greatest:
  fixes a :: real
  shows "foldl max a xs \<in> insert a (set xs) \<and> (\<forall>y \<in> insert a (set xs). y \<le> foldl max a xs)"
proof (induction xs arbitrary: a)
  case Nil
  show ?case by simp
next
  case (Cons x xs)
  from Cons.IH [of "max a x"] show ?case
    by (auto simp add: max_def split: if_splits)
qed

lemma foldl_min_Min: "foldl min (a::real) xs = Min (set (a # xs))"
  using foldl_min_least [of a xs] by (intro Min_eqI [symmetric]) auto

lemma foldl_max_Max: "foldl max (a::real) xs = Max (set (a # xs))"
  using foldl_max_greatest [of a xs] by (intro Max_eqI [symmetric]) auto

lemma foldl_extend_Some:
  "foldl extendBounds \<lparr>minX = Some a, minY = Some b, maxX = Some c, maxY = Some d\<rparr> pts =
     \<lparr>minX = Some (foldl min a (map fst pts)), minY = Some (foldl min b (map snd pts)),
      maxX = Some (foldl max c (map fst pts)), maxY = Some (foldl max d (map snd pts))\<rparr>"
  by (induction pts arbitrary: a b c d) (simp_all add: extendBounds_def)

lemma foldl_extend_init:
  assumes "pts \<noteq> []"
  shows "foldl extendBounds initBounds pts =
     \<lparr>minX = Some (Min (fst ` set pts)), minY = Some (Min (snd ` set pts)),
      maxX = Some (Max (fst ` set pts)), maxY = Some (Max (snd ` set pts))\<rparr>"
proof -
  from assms obtain p ps where pts: "pts = p # ps" by (cases pts) simp_all
  have "foldl extendBounds initBounds (p # ps) =
          foldl extendBounds \<lparr>minX = Some (fst p), minY = Some (snd p),
                               maxX = Some (fst p), maxY = Some (snd p)\<rparr> ps"
    by (simp add: extendBounds_def initBounds_def)
  then show ?thesis
    unfolding pts foldl_extend_Some foldl_min_Min foldl_max_Max by simp
qed

lemma exportBoundsF_Min_Max:
  assumes "ls \<noteq> []"
  shows "exportBoundsF fl mc ms ls =
     \<lparr>minX = Some (Min (fst ` set (transformedCornersF fl mc ms ls))),
      minY = Some (Min (snd ` set (transformedCornersF fl mc ms ls))),
      maxX = Some (Max (fst ` set (transformedCornersF fl mc ms ls))),
      maxY = Some (Max (snd ` set (transformedCornersF fl mc ms ls)))\<rparr>"
proof -
  from assms have "transformedCornersF fl mc ms ls \<noteq> []"
    by (cases ls) (simp_all add: transformedCornersF_def cornersF_def)
  then show ?thesis
    unfolding exportBoundsF_def foldl_addLayerBoundsF_extend by (rule foldl_extend_init)
qed

lemma toUnsignedLong_abs:
  "toUnsignedLong (Some \<bar>r\<bar>) = nat (\<lfloor>\<bar>r\<bar>\<rfloor> mod 4294967296)"
  by (simp add: toUnsignedLong_def)

lemma export_canvas_general:
  assumes "filter isVisible ls \<noteq> []"
  shows "\<exists>plan. handleExport mc ms True loads ls = Download plan
     \<and> canvasWidth plan =
         nat (\<lfloor>\<bar>roundDouble
                  (Max (fst ` set (transformedCornersF roundDouble mc ms (filter isVisible ls)))
                   - Min (fst ` set (transformedCornersF roundDouble mc ms (filter isVisible ls))))\<bar>\<rfloor>
              mod 4294967296)
     \<and> canvasHeight plan =
         nat (\<lfloor>\<bar>roundDouble
                  (Max (snd ` set (transformedCornersF roundDouble mc ms (filter isVisible ls)))
                   - Min (snd ` set (transformedCornersF roundDouble mc ms (filter isVisible ls))))\<bar>\<rfloor>
              mod 4294967296)
     \<and> originAt plan =
         (Some (Min (fst ` set (transformedCornersF roundDouble mc ms (filter isVisible ls)))),
          Some (Min (snd ` set (transformedCornersF roundDouble mc ms (filter isVisible ls)))))
     \<and> map dImg (draws plan)
         = map src (filter (\<lambda>l. loads (src l)) (sort_key zIndex (filter isVisible ls)))"
proof -
  from assms have ne: "ls \<noteq> []" by auto
  note b = exportBoundsF_Min_Max [OF assms, of roundDouble mc ms]
  have d: "dImg (drawLayer fl l) = src l" for fl l
    by (simp add: drawLayer_def Let_def)
  show ?thesis
    using assms ne
    by (simp add: handleExport_def exportBody_def Let_def b absDiff_def toUnsignedLong_abs d)
qed


subsection \<open>Export of a single plain layer\<close>

lemma roundDouble_zero: "roundDouble 0 = 0"
  by (simp add: roundDouble_def)

lemma roundDouble_minus: "roundDouble (- q) = - roundDouble q"
  by (simp add: roundDouble_def Let_def)

lemma representable_minus: "representable r \<Longrightarrow> roundDouble (- r) = - r"
  by (simp add: representable_def roundDouble_minus)

lemma plain_corner:
  assumes "rotation l = 0" and "scale l = 1" and "mc 0 = 1" and "ms 0 = 0"
    and "roundDouble a = a" and "roundDouble b = b"
  shows "transformCornerF roundDouble mc ms l (a, b) =
           (roundDouble (roundDouble (lx l + roundDouble (width l / 2)) + a),
            roundDouble (roundDouble (ly l + roundDouble (height l / 2)) + b))"
  using assms by (simp add: transformCornerF_def Let_def roundDouble_zero)

lemma plain_corners:
  assumes p: "rotation l = 0" "scale l = 1" "mc 0 = 1" "ms 0 = 0"
    and w: "representable (width l / 2)" and h: "representable (height l / 2)"
  shows "map (transformCornerF roundDouble mc ms l) (cornersF roundDouble l) =
           [(edgeLo (lx l) (width l), edgeLo (ly l) (height l)),
            (edgeHi (lx l) (width l), edgeLo (ly l) (height l)),
            (edgeHi (lx l) (width l), edgeHi (ly l) (height l)),
            (edgeLo (lx l) (width l), edgeHi (ly l) (height l))]"
proof -
  from w have w1: "roundDouble (width l / 2) = width l / 2" by (simp add: representable_def)
  from h have h1: "roundDouble (height l / 2) = height l / 2" by (simp add: representable_def)
  from w have w2: "roundDouble (- (width l / 2)) = - (width l / 2)" by (rule representable_minus)
  from h have h2: "roundDouble (- (height l / 2)) = - (height l / 2)" by (rule representable_minus)
  have c: "cornersF roundDouble l =
      [(- (width l / 2), - (height l / 2)), (width l / 2, - (height l / 2)),
       (width l / 2, height l / 2), (- (width l / 2), height l / 2)]"
    by (simp add: cornersF_def w1 h1 w2 h2)
  show ?thesis
    unfolding c
    by (simp add: plain_corner [of l mc ms, OF p] w1 h1 w2 h2 edgeLo_def edgeHi_def)
qed

lemma plain_bounds:
  assumes p: "rotation l = 0" "scale l = 1" "mc 0 = 1" "ms 0 = 0"
    and w: "representable (width l / 2)" and h: "representable (height l / 2)"
  shows "exportBoundsF roundDouble mc ms [l] =
           \<lparr>minX = Some (min (edgeLo (lx l) (width l)) (edgeHi (lx l) (width l))),
            minY = Some (min (edgeLo (ly l) (height l)) (edgeHi (ly l) (height l))),
            maxX = Some (max (edgeLo (lx l) (width l)) (edgeHi (lx l) (width l))),
            maxY = Some (max (edgeLo (ly l) (height l)) (edgeHi (ly l) (height l)))\<rparr>"
proof -
  have "exportBoundsF roundDouble mc ms [l] =
          foldl extendBounds initBounds (map (transformCornerF roundDouble mc ms l) (cornersF roundDouble l))"
    by (simp add: exportBoundsF_def addLayerBoundsF_extend)
  also have "\<dots> = \<lparr>minX = Some (min (edgeLo (lx l) (width l)) (edgeHi (lx l) (width l))),
            minY = Some (min (edgeLo (ly l) (height l)) (edgeHi (ly l) (height l))),
            maxX = Some (max (edgeLo (lx l) (width l)) (edgeHi (lx l) (width l))),
            maxY = Some (max (edgeLo (ly l) (height l)) (edgeHi (ly l) (height l)))\<rparr>"
    unfolding plain_corners [of l mc ms, OF p w h]
    by (simp add: extendBounds_def initBounds_def)
  finally show ?thesis .
qed

lemma export_plain_size:
  assumes one: "filter isVisible ls = [l]"
    and p: "rotation l = 0" "scale l = 1" "mc 0 = 1" "ms 0 = 0"
    and w: "representable (width l / 2)" and h: "representable (height l / 2)"
  shows "canvasSize (handleExport mc ms True loads ls) =
           Some (nat (\<lfloor>\<bar>roundDouble (max (edgeLo (lx l) (width l)) (edgeHi (lx l) (width l))
                                      - min (edgeLo (lx l) (width l)) (edgeHi (lx l) (width l)))\<bar>\<rfloor>
                      mod 4294967296),
                 nat (\<lfloor>\<bar>roundDouble (max (edgeLo (ly l) (height l)) (edgeHi (ly l) (height l))
                                      - min (edgeLo (ly l) (height l)) (edgeHi (ly l) (height l)))\<bar>\<rfloor>
                      mod 4294967296))"
proof -
  from one have ne: "ls \<noteq> []" by auto
  show ?thesis
    using ne
    by (simp add: canvasSize_def handleExport_def exportBody_def Let_def one
        plain_bounds [of l mc ms, OF p w h] absDiff_def toUnsignedLong_abs)
qed

lemma export_single_plain_layer:
  assumes one: "filter isVisible ls = [l]"
    and p: "rotation l = 0" "scale l = 1" "mc 0 = 1" "ms 0 = 0"
    and q: "opacity l = 1" "blendMode l = NORMAL" "colorCorrection l = DEFAULT_COLOR_CORRECTION"
    and size: "0 \<le> width l" "0 \<le> height l"
    and ld: "loads (src l)"
    and rx: "representable (lx l)" "representable (width l)" "representable (width l / 2)"
      "representable (lx l + width l / 2)" "representable (lx l + width l)"
    and ry: "representable (ly l)" "representable (height l)" "representable (height l / 2)"
      "representable (ly l + height l / 2)" "representable (ly l + height l)"
  shows "handleExport mc ms True loads ls =
           Download \<lparr>canvasWidth = nat (\<lfloor>width l\<rfloor> mod 4294967296),
             canvasHeight = nat (\<lfloor>height l\<rfloor> mod 4294967296),
             originAt = (Some (lx l), Some (ly l)),
             draws = [\<lparr>dImg = src l,
                       dTranslate = (lx l + width l / 2, ly l + height l / 2),
                       dRotate = 0, dScale = (1, 1), dGlobalAlpha = 1,
                       dCompositeOp = SourceOver,
                       dFilter = [Brightness 100, Contrast 100, Saturate 100, HueRotate 0, Blur 0],
                       dDest = (- (width l / 2), - (height l / 2), width l, height l)\<rparr>]\<rparr>"
proof -
  from one have ne: "ls \<noteq> []" by auto
  from rx have x: "roundDouble (lx l) = lx l" "roundDouble (width l) = width l"
    "roundDouble (width l / 2) = width l / 2"
    "roundDouble (lx l + width l / 2) = lx l + width l / 2"
    "roundDouble (lx l + width l) = lx l + width l"
    by (simp_all add: representable_def)
  from ry have y: "roundDouble (ly l) = ly l" "roundDouble (height l) = height l"
    "roundDouble (height l / 2) = height l / 2"
    "roundDouble (ly l + height l / 2) = ly l + height l / 2"
    "roundDouble (ly l + height l) = ly l + height l"
    by (simp_all add: representable_def)
  have sx: "lx l + width l / 2 - width l / 2 = lx l" "lx l + width l / 2 + width l / 2 = lx l + width l"
    by simp_all
  have sy: "ly l + height l / 2 - height l / 2 = ly l" "ly l + height l / 2 + height l / 2 = ly l + height l"
    by simp_all
  have ex: "edgeLo (lx l) (width l) = lx l" "edgeHi (lx l) (width l) = lx l + width l"
    unfolding edgeLo_def edgeHi_def x(4) sx x(1) x(5) by (rule refl)+
  have ey: "edgeLo (ly l) (height l) = ly l" "edgeHi (ly l) (height l) = ly l + height l"
    unfolding edgeLo_def edgeHi_def y(4) sy y(1) y(5) by (rule refl)+
  have dx: "lx l + width l - lx l = width l" and dy: "ly l + height l - ly l = height l"
    by simp_all
  have b: "exportBoundsF roundDouble mc ms [l] =
      \<lparr>minX = Some (lx l), minY = Some (ly l),
       maxX = Some (lx l + width l), maxY = Some (ly l + height l)\<rparr>"
    unfolding plain_bounds [of l mc ms, OF p rx(3) ry(3)] ex ey using size by (simp add: min_def max_def)
  have wd: "absDiff roundDouble (Some (lx l + width l)) (Some (lx l)) = Some \<bar>width l\<bar>"
    unfolding absDiff_def prod.case option.case dx x(2) ..
  have hd: "absDiff roundDouble (Some (ly l + height l)) (Some (ly l)) = Some \<bar>height l\<bar>"
    unfolding absDiff_def prod.case option.case dy y(2) ..
  have d: "drawLayer roundDouble l = \<lparr>dImg = src l,
                       dTranslate = (lx l + width l / 2, ly l + height l / 2),
                       dRotate = 0, dScale = (1, 1), dGlobalAlpha = 1,
                       dCompositeOp = SourceOver,
                       dFilter = [Brightness 100, Contrast 100, Saturate 100, HueRotate 0, Blur 0],
                       dDest = (- (width l / 2), - (height l / 2), width l, height l)\<rparr>"
    using p q rx(3) ry(3)
    by (simp add: drawLayer_def getFilterString_def DEFAULT_COLOR_CORRECTION_def Let_def x y
        roundDouble_zero representable_minus)
  have "exportBody mc ms True loads ls =
          Inr \<lparr>canvasWidth = nat (\<lfloor>width l\<rfloor> mod 4294967296),
             canvasHeight = nat (\<lfloor>height l\<rfloor> mod 4294967296),
             originAt = (Some (lx l), Some (ly l)), draws = [drawLayer roundDouble l]\<rparr>"
    using size ld
    by (simp add: exportBody_def one b wd hd Let_def toUnsignedLong_abs del: abs_of_nonneg)
      (simp add: toUnsignedLong_def)
  with ne d show ?thesis
    by (simp add: handleExport_def)
qed


subsection \<open>Export: two concrete stores\<close>

lemma roundedCos_zero: "roundedCos 0 = 1"
  by (simp add: roundedCos_def double_eval)

lemma roundedSin_zero: "roundedSin 0 = 0"
  by (simp add: roundedSin_def roundDouble_zero)

lemma representable_values:
  "representable 0" "representable 150" "representable 300"
  "representable 250" "representable 350" "representable 500" "representable 650"
  "representable (675 / 4)" "representable (675 / 8)" "representable (2675 / 8)"
  "representable (1675 / 4)"
  by (simp_all add: representable_def double_eval)

lemma wideImage_loaded:
  "addLayerOnLoad ''1'' 1920 1080 (addLayer ''1'' 1000 800 ''data:a'' ''Image Layer'' emptyApp)
     = Some wideImageState"
proof -
  have h: "roundDouble (300 / roundDouble (16 / 9)) = 168.75"
    by (simp add: double_eval)
  show ?thesis
    unfolding added_eval
    apply (simp add: addLayerOnLoad_def wideImageState_def emptyApp_def INITIAL_LAYER_WIDTH_def h
        Let_def)
    apply (simp add: updateLayer_def sampleLayer_def)
    done
qed

lemma wideImage_layer:
  "filter isVisible (layers wideImageState)
     = [(sampleLayer ''1'' 1)\<lparr>lx := 350, ly := 250, height := 168.75\<rparr>]"
  by (simp add: wideImageState_def emptyApp_def sampleLayer_def)

lemma wideImage_export:
  "handleExport roundedCos roundedSin True allLoad (layers wideImageState) =
     Download \<lparr>canvasWidth = 300, canvasHeight = 168,
       originAt = (Some 350, Some 250),
       draws = [\<lparr>dImg = ''data:a'', dTranslate = (500, 334.375),
                 dRotate = 0, dScale = (1, 1), dGlobalAlpha = 1,
                 dCompositeOp = SourceOver,
                 dFilter = [Brightness 100, Contrast 100, Saturate 100, HueRotate 0, Blur 0],
                 dDest = (- 150, - 84.375, 300, 168.75)\<rparr>]\<rparr>"
proof -
  let ?l = "(sampleLayer ''1'' 1)\<lparr>lx := 350, ly := 250, height := 168.75\<rparr>"
  have f: "lx ?l = 350" "ly ?l = 250" "width ?l = 300" "height ?l = 168.75" "src ?l = ''data:a''"
    by (simp_all add: sampleLayer_def)
  have "handleExport roundedCos roundedSin True allLoad (layers wideImageState) =
           Download \<lparr>canvasWidth = nat (\<lfloor>width ?l\<rfloor> mod 4294967296),
             canvasHeight = nat (\<lfloor>height ?l\<rfloor> mod 4294967296),
             originAt = (Some (lx ?l), Some (ly ?l)),
             draws = [\<lparr>dImg = src ?l,
                       dTranslate = (lx ?l + width ?l / 2, ly ?l + height ?l / 2),
                       dRotate = 0, dScale = (1, 1), dGlobalAlpha = 1,
                       dCompositeOp = SourceOver,
                       dFilter = [Brightness 100, Contrast 100, Saturate 100, HueRotate 0, Blur 0],
                       dDest = (- (width ?l / 2), - (height ?l / 2), width ?l, height ?l)\<rparr>]\<rparr>"
    by (rule export_single_plain_layer [where mc = roundedCos and ms = roundedSin, OF wideImage_layer _ _ roundedCos_zero roundedSin_zero])
      (simp_all add: sampleLayer_def representable_values allLoad_def)
  then show ?thesis
    unfolding f by simp
qed

lemma dragged_edges:
  "edgeLo (6163129177560405 / 17592186044416) 300 = 6163129177560405 / 17592186044416"
  "edgeHi (6163129177560405 / 17592186044416) 300 = 2860196247721301 / 4398046511104"
  "roundDouble (5277655813324799 / 17592186044416) = 5277655813324799 / 17592186044416"
  "edgeLo 0 300 = 0" "edgeHi 0 300 = 300" "roundDouble 300 = 300"
  by (simp_all add: edgeLo_def edgeHi_def double_eval)

lemma dragged_export:
  "canvasSize (handleExport roundedCos roundedSin True allLoad [draggedLayer]) = Some (299, 300)"
proof -
  have v: "filter isVisible [draggedLayer] = [draggedLayer]"
    by (simp add: draggedLayer_def sampleLayer_def)
  have f: "lx draggedLayer = 6163129177560405 / 17592186044416" "ly draggedLayer = 0"
    "width draggedLayer = 300" "height draggedLayer = 300"
    by (simp_all add: draggedLayer_def sampleLayer_def)
  have "canvasSize (handleExport roundedCos roundedSin True allLoad [draggedLayer]) =
           Some (nat (\<lfloor>\<bar>roundDouble (max (edgeLo (lx draggedLayer) (width draggedLayer))
                                          (edgeHi (lx draggedLayer) (width draggedLayer))
                                      - min (edgeLo (lx draggedLayer) (width draggedLayer))
                                          (edgeHi (lx draggedLayer) (width draggedLayer)))\<bar>\<rfloor>
                      mod 4294967296),
                 nat (\<lfloor>\<bar>roundDouble (max (edgeLo (ly draggedLayer) (height draggedLayer))
                                          (edgeHi (ly draggedLayer) (height draggedLayer))
                                      - min (edgeLo (ly draggedLayer) (height draggedLayer))
                                          (edgeHi (ly draggedLayer) (height draggedLayer)))\<bar>\<rfloor>
                      mod 4294967296))"
    by (rule export_plain_size [where mc = roundedCos and ms = roundedSin, OF v _ _ roundedCos_zero roundedSin_zero])
      (simp_all add: draggedLayer_def sampleLayer_def representable_values)
  then show ?thesis
    unfolding f dragged_edges by (simp add: dragged_edges)
qed


subsection \<open>Export: the bitmap of one plain layer\<close>

text \<open>
  Claim C5, as stated, at two stores of one visible layer, unrotated, unscaled, opaque,
  with the defaults. A layer made from an image of 1920 by 1080 pixels is 300 by 168.75;
  the exported bitmap is 300 by 168, the height assigned to the canvas being truncated.
  A layer of 300 by 300 at \<open>x = 350.3333333333333\<close> is exported 299 pixels wide: the
  double arithmetic gives the extent 299.99999999999994. In neither case are the
  dimensions exactly the layer's, and a bitmap of another size than the image is not
  byte-identical to it.
\<close>

theorem C5_truncated_counterexample:
  "addLayerOnLoad ''1'' 1920 1080 (addLayer ''1'' 1000 800 ''data:a'' ''Image Layer'' emptyApp)
     = Some wideImageState
   \<and> map width (layers wideImageState) = [300]
   \<and> map height (layers wideImageState) = [168.75]
   \<and> canvasSize (handleExport roundedCos roundedSin True allLoad (layers wideImageState))
       = Some (300, 168)
   \<and> map width [draggedLayer] = [300]
   \<and> map height [draggedLayer] = [300]
   \<and> canvasSize (handleExport roundedCos roundedSin True allLoad [draggedLayer])
       = Some (299, 300)"
proof -
  have a: "map width (layers wideImageState) = [300]"
    "map height (layers wideImageState) = [168.75]"
    by (simp_all add: wideImageState_def emptyApp_def sampleLayer_def)
  have b: "canvasSize (handleExport roundedCos roundedSin True allLoad (layers wideImageState))
       = Some (300, 168)"
    unfolding wideImage_export by (simp add: canvasSize_def)
  have c: "map width [draggedLayer] = [300]" "map height [draggedLayer] = [300]"
    by (simp_all add: draggedLayer_def sampleLayer_def)
  from wideImage_loaded a b c dragged_export show ?thesis by (intro conjI)
qed

text \<open>
  Claim C5, amended. Let the export have a canvas context. When exactly one layer is
  visible, with rotation 0, scale 1, opacity 1, normal blend mode and the default colour
  correction, its image loads, its width and height are not negative, and the sums
  \<open>x + width / 2\<close>, \<open>x + width\<close>, \<open>y + height / 2\<close>, \<open>y + height\<close> are exact in double
  arithmetic (the fields themselves and the halves being doubles), the canvas is the
  layer's width by height, each truncated to an integer (modulo \<open>2 ^ 32\<close>), its origin
  is the layer's top-left corner, and the source image is drawn once, scaled to the
  layer's width by height, with no rotation, scale 1, alpha 1, source-over and the
  filter list at its default values. In general, with at least one visible layer, the
  canvas is \<open>maxX - minX\<close> by \<open>maxY - minY\<close>, computed in doubles and truncated in the
  same way, and \<open>(minX, minY)\<close> is its origin, where these are the least and greatest
  coordinates of the transformed corners of all visible layers as the loop computes
  them; the images that load are drawn in ascending \<open>zIndex\<close>.
\<close>

theorem C5_export_canvas:
  "(filter isVisible ls = [l] \<and> rotation l = 0 \<and> scale l = 1 \<and> opacity l = 1
      \<and> blendMode l = NORMAL \<and> colorCorrection l = DEFAULT_COLOR_CORRECTION
      \<and> 0 \<le> width l \<and> 0 \<le> height l \<and> loads (src l) \<and> mc 0 = 1 \<and> ms 0 = 0
      \<and> representable (lx l) \<and> representable (width l) \<and> representable (width l / 2)
      \<and> representable (lx l + width l / 2) \<and> representable (lx l + width l)
      \<and> representable (ly l) \<and> representable (height l) \<and> representable (height l / 2)
      \<and> representable (ly l + height l / 2) \<and> representable (ly l + height l) \<longrightarrow>
      handleExport mc ms True loads ls =
        Download \<lparr>canvasWidth = nat (\<lfloor>width l\<rfloor> mod 4294967296),
          canvasHeight = nat (\<lfloor>height l\<rfloor> mod 4294967296),
          originAt = (Some (lx l), Some (ly l)),
          draws = [\<lparr>dImg = src l,
                    dTranslate = (lx l + width l / 2, ly l + height l / 2),
                    dRotate = 0, dScale = (1, 1), dGlobalAlpha = 1,
                    dCompositeOp = SourceOver,
                    dFilter = [Brightness 100, Contrast 100, Saturate 100, HueRotate 0, Blur 0],
                    dDest = (- (width l / 2), - (height l / 2), width l, height l)\<rparr>]\<rparr>)
   \<and> (filter isVisible ls \<noteq> [] \<longrightarrow>
       (\<exists>plan. handleExport mc ms True loads ls = Download plan
          \<and> canvasWidth plan =
              nat (\<lfloor>\<bar>roundDouble
                  (Max (fst ` set (transformedCornersF roundDouble mc ms (filter isVisible ls)))
                   - Min (fst ` set (transformedCornersF roundDouble mc ms (filter isVisible ls))))\<bar>\<rfloor>
                   mod 4294967296)
          \<and> canvasHeight plan =
              nat (\<lfloor>\<bar>roundDouble
                  (Max (snd ` set (transformedCornersF roundDouble mc ms (filter isVisible ls)))
                   - Min (snd ` set (transformedCornersF roundDouble mc ms (filter isVisible ls))))\<bar>\<rfloor>
                   mod 4294967296)
          \<and> originAt plan =
              (Some (Min (fst ` set (transformedCornersF roundDouble mc ms (filter isVisible ls)))),
               Some (Min (snd ` set (transformedCornersF roundDouble mc ms (filter isVisible ls)))))
          \<and> map dImg (draws plan)
              = map src (filter (\<lambda>l. loads (src l)) (sort_key zIndex (filter isVisible ls)))))"
proof (intro conjI impI)
  assume a: "filter isVisible ls = [l] \<and> rotation l = 0 \<and> scale l = 1 \<and> opacity l = 1
      \<and> blendMode l = NORMAL \<and> colorCorrection l = DEFAULT_COLOR_CORRECTION
      \<and> 0 \<le> width l \<and> 0 \<le> height l \<and> loads (src l) \<and> mc 0 = 1 \<and> ms 0 = 0
      \<and> representable (lx l) \<and> representable (width l) \<and> representable (width l / 2)
      \<and> representable (lx l + width l / 2) \<and> representable (lx l + width l)
      \<and> representable (ly l) \<and> representable (height l) \<and> representable (height l / 2)
      \<and> representable (ly l + height l / 2) \<and> representable (ly l + height l)"
  show "handleExport mc ms True loads ls =
        Download \<lparr>canvasWidth = nat (\<lfloor>width l\<rfloor> mod 4294967296),
          canvasHeight = nat (\<lfloor>height l\<rfloor> mod 4294967296),
          originAt = (Some (lx l), Some (ly l)),
          draws = [\<lparr>dImg = src l,
                    dTranslate = (lx l + width l / 2, ly l + height l / 2),
                    dRotate = 0, dScale = (1, 1), dGlobalAlpha = 1,
                    dCompositeOp = SourceOver,
                    dFilter = [Brightness 100, Contrast 100, Saturate 100, HueRotate 0, Blur 0],
                    dDest = (- (width l / 2), - (height l / 2), width l, height l)\<rparr>]\<rparr>"
    by (rule export_single_plain_layer [where mc = mc and ms = ms]) (simp_all add: a)
next
  assume "filter isVisible ls \<noteq> []"
  then show "\<exists>plan. handleExport mc ms True loads ls = Download plan
          \<and> canvasWidth plan =
              nat (\<lfloor>\<bar>roundDouble
                  (Max (fst ` set (transformedCornersF roundDouble mc ms (filter isVisible ls)))
                   - Min (fst ` set (transformedCornersF roundDouble mc ms (filter isVisible ls))))\<bar>\<rfloor>
                   mod 4294967296)
          \<and> canvasHeight plan =
              nat (\<lfloor>\<bar>roundDouble
                  (Max (snd ` set (transformedCornersF roundDouble mc ms (filter isVisible ls)))
                   - Min (snd ` set (transformedCornersF roundDouble mc ms (filter isVisible ls))))\<bar>\<rfloor>
                   mod 4294967296)
          \<and> originAt plan =
              (Some (Min (fst ` set (transformedCornersF roundDouble mc ms (filter isVisible ls)))),
               Some (Min (snd ` set (transformedCornersF roundDouble mc ms (filter isVisible ls)))))
          \<and> map dImg (draws plan)
              = map src (filter (\<lambda>l. loads (src l)) (sort_key zIndex (filter isVisible ls)))"
    by (rule export_canvas_general)
qed

theorem C5_export_canvas_witness:
  "filter isVisible oneVisible = [sampleLayer ''1'' 1]
   \<and> roundedCos 0 = 1 \<and> roundedSin 0 = 0
   \<and> representable (lx (sampleLayer ''1'' 1) + width (sampleLayer ''1'' 1))
   \<and> representable (ly (sampleLayer ''1'' 1) + height (sampleLayer ''1'' 1) / 2)
   \<and> handleExport roundedCos roundedSin True allLoad oneVisible =
        Download \<lparr>canvasWidth = 300, canvasHeight = 300,
          originAt = (Some 0, Some 0),
          draws = [\<lparr>dImg = ''data:a'', dTranslate = (150, 150),
                    dRotate = 0, dScale = (1, 1), dGlobalAlpha = 1,
                    dCompositeOp = SourceOver,
                    dFilter = [Brightness 100, Contrast 100, Saturate 100, HueRotate 0, Blur 0],
                    dDest = (- 150, - 150, 300, 300)\<rparr>]\<rparr>
   \<and> nat (\<lfloor>\<bar>roundDouble
          (Max (fst ` set (transformedCornersF roundDouble roundedCos roundedSin
                            (filter isVisible oneVisible)))
           - Min (fst ` set (transformedCornersF roundDouble roundedCos roundedSin
                              (filter isVisible oneVisible))))\<bar>\<rfloor>
        mod 4294967296) = 300
   \<and> Min (snd ` set (transformedCornersF roundDouble roundedCos roundedSin
                       (filter isVisible oneVisible))) = 0"
proof -
  let ?l = "sampleLayer ''1'' 1"
  have v: "filter isVisible oneVisible = [?l]"
    by (simp add: oneVisible_def sampleLayer_def)
  have r1: "representable (lx ?l + width ?l)" and r2: "representable (ly ?l + height ?l / 2)"
    by (simp_all add: sampleLayer_def representable_values)
  have p: "filter isVisible oneVisible = [?l] \<and> rotation ?l = 0 \<and> scale ?l = 1 \<and> opacity ?l = 1
      \<and> blendMode ?l = NORMAL \<and> colorCorrection ?l = DEFAULT_COLOR_CORRECTION
      \<and> 0 \<le> width ?l \<and> 0 \<le> height ?l \<and> allLoad (src ?l)
      \<and> roundedCos 0 = 1 \<and> roundedSin 0 = 0
      \<and> representable (lx ?l) \<and> representable (width ?l) \<and> representable (width ?l / 2)
      \<and> representable (lx ?l + width ?l / 2) \<and> representable (lx ?l + width ?l)
      \<and> representable (ly ?l) \<and> representable (height ?l) \<and> representable (height ?l / 2)
      \<and> representable (ly ?l + height ?l / 2) \<and> representable (ly ?l + height ?l)"
    using v roundedCos_zero roundedSin_zero
    by (simp add: sampleLayer_def allLoad_def representable_values)
  have q: "filter isVisible oneVisible \<noteq> []"
    using v by simp
  note th = C5_export_canvas [of oneVisible ?l allLoad roundedCos roundedSin]
  from th p have "handleExport roundedCos roundedSin True allLoad oneVisible =
        Download \<lparr>canvasWidth = nat (\<lfloor>width ?l\<rfloor> mod 4294967296),
          canvasHeight = nat (\<lfloor>height ?l\<rfloor> mod 4294967296),
          originAt = (Some (lx ?l), Some (ly ?l)),
          draws = [\<lparr>dImg = src ?l,
                    dTranslate = (lx ?l + width ?l / 2, ly ?l + height ?l / 2),
                    dRotate = 0, dScale = (1, 1), dGlobalAlpha = 1,
                    dCompositeOp = SourceOver,
                    dFilter = [Brightness 100, Contrast 100, Saturate 100, HueRotate 0, Blur 0],
                    dDest = (- (width ?l / 2), - (height ?l / 2), width ?l, height ?l)\<rparr>]\<rparr>"
    by blast
  then have e: "handleExport roundedCos roundedSin True allLoad oneVisible =
        Download \<lparr>canvasWidth = 300, canvasHeight = 300,
          originAt = (Some 0, Some 0),
          draws = [\<lparr>dImg = ''data:a'', dTranslate = (150, 150),
                    dRotate = 0, dScale = (1, 1), dGlobalAlpha = 1,
                    dCompositeOp = SourceOver,
                    dFilter = [Brightness 100, Contrast 100, Saturate 100, HueRotate 0, Blur 0],
                    dDest = (- 150, - 150, 300, 300)\<rparr>]\<rparr>"
    by (simp add: sampleLayer_def)
  from th q obtain plan where d: "handleExport roundedCos roundedSin True allLoad oneVisible = Download plan"
    and w: "canvasWidth plan =
              nat (\<lfloor>\<bar>roundDouble
                  (Max (fst ` set (transformedCornersF roundDouble roundedCos roundedSin
                                    (filter isVisible oneVisible)))
                   - Min (fst ` set (transformedCornersF roundDouble roundedCos roundedSin
                                      (filter isVisible oneVisible))))\<bar>\<rfloor>
                   mod 4294967296)"
    and o: "originAt plan =
              (Some (Min (fst ` set (transformedCornersF roundDouble roundedCos roundedSin
                                      (filter isVisible oneVisible)))),
               Some (Min (snd ` set (transformedCornersF roundDouble roundedCos roundedSin
                                      (filter isVisible oneVisible)))))"
    by blast
  from d e have pl: "plan = \<lparr>canvasWidth = 300, canvasHeight = 300,
          originAt = (Some 0, Some 0),
          draws = [\<lparr>dImg = ''data:a'', dTranslate = (150, 150),
                    dRotate = 0, dScale = (1, 1), dGlobalAlpha = 1,
                    dCompositeOp = SourceOver,
                    dFilter = [Brightness 100, Contrast 100, Saturate 100, HueRotate 0, Blur 0],
                    dDest = (- 150, - 150, 300, 300)\<rparr>]\<rparr>"
    by simp
  from w pl have w': "nat (\<lfloor>\<bar>roundDouble
          (Max (fst ` set (transformedCornersF roundDouble roundedCos roundedSin
                            (filter isVisible oneVisible)))
           - Min (fst ` set (transformedCornersF roundDouble roundedCos roundedSin
                              (filter isVisible oneVisible))))\<bar>\<rfloor>
        mod 4294967296) = 300"
    by simp
  from o pl have o': "Min (snd ` set (transformedCornersF roundDouble roundedCos roundedSin
                       (filter isVisible oneVisible))) = 0"
    by simp
  from v roundedCos_zero roundedSin_zero r1 r2 e w' o' show ?thesis by (intro conjI)
qed

end
